(* ===== verification/Prelude.thy ===== *)
theory Prelude
  imports Main "HOL-Library.Word" "HOL-Library.Signed_Division"
begin

text \<open>
  Shared vocabulary of the development: the Rust integer types of the crate as
  machine words, the collections of facts the component theories feed to the
  simplifier, and generic lemmas on words, lists and options that several
  components use. Nothing here models code of the repository.
\<close>

unbundle bit_operations_syntax

section \<open>Rust integer types\<close>

text \<open>
  The crate targets a 64-bit platform, so \<open>usize\<close> is a 64-bit word. \<open>i32\<close> is
  the type Rust infers for an integer literal with no other constraint; it is a
  32-bit word read as two's complement with \<open>sint\<close>. Arithmetic on these words
  wraps, which is what a release build of the crate does on overflow.
\<close>

type_synonym u8 = "8 word"
type_synonym u16 = "16 word"
type_synonym u32 = "32 word"
type_synonym u64 = "64 word"
type_synonym usize = "64 word"
type_synonym i32 = "32 word"
type_synonym bytes = "u8 list"

section \<open>Decimal printing\<close>

text \<open>
  Rust's \<open>Display\<close> of an integer: its decimal digits, with a minus sign when
  negative and no leading zeros.
\<close>

definition digit_char :: "nat \<Rightarrow> char" where
  "digit_char d = ''0123456789'' ! d"

fun show_nat :: "nat \<Rightarrow> string" where
  "show_nat n =
     (if n < 10 then [digit_char n] else show_nat (n div 10) @ [digit_char (n mod 10)])"

definition show_int :: "int \<Rightarrow> string" where
  "show_int k = (if k < 0 then ''-'' @ show_nat (nat (- k)) else show_nat (nat k))"

section \<open>Results of a loop over fallible items\<close>

text \<open>
  A list of per-item results, read until the first error: the error, or the list of
  all values. This is what a Rust loop \<open>for r in it { let x = r?; ... }\<close> sees of
  its input.
\<close>

fun sequence_results :: "('e + 'a) list \<Rightarrow> 'e + 'a list" where
  "sequence_results [] = Inr []"
| "sequence_results (Inl e # rs) = Inl e"
| "sequence_results (Inr x # rs) = map_sum id (Cons x) (sequence_results rs)"

section \<open>The \<open>?\<close> operator\<close>

text \<open>Sequencing of fallible steps: an error is passed on, a value is fed to the rest.\<close>

definition bind_res :: "'e + 'a \<Rightarrow> ('a \<Rightarrow> 'e + 'b) \<Rightarrow> 'e + 'b" where
  "bind_res r f = (case r of Inl e \<Rightarrow> Inl e | Inr a \<Rightarrow> f a)"

section \<open>Bytes\<close>

text \<open>
  A Rust \<open>String\<close> is its UTF-8 bytes; an Isabelle character is one byte, so a
  string of the model converts to bytes character by character.
\<close>

definition string_bytes :: "string \<Rightarrow> bytes" where
  "string_bytes s = map of_char s"

definition bytes_string :: "bytes \<Rightarrow> string" where
  "bytes_string bs = map (\<lambda>b. char_of (unat b)) bs"

text \<open>
  Well-formed UTF-8, as \<open>str::from_utf8\<close> checks it: the lead byte fixes the
  number of continuation bytes and the range of the first of them (which excludes
  overlong forms, surrogates and code points above U+10FFFF); the others are in
  \<open>80..BF\<close>.
\<close>

definition utf8_lead :: "u8 \<Rightarrow> (nat \<times> u8 \<times> u8) option" where
  "utf8_lead b =
     (if 0xC2 \<le> b \<and> b \<le> 0xDF then Some (1, 0x80, 0xBF)
      else if b = 0xE0 then Some (2, 0xA0, 0xBF)
      else if 0xE1 \<le> b \<and> b \<le> 0xEC then Some (2, 0x80, 0xBF)
      else if b = 0xED then Some (2, 0x80, 0x9F)
      else if 0xEE \<le> b \<and> b \<le> 0xEF then Some (2, 0x80, 0xBF)
      else if b = 0xF0 then Some (3, 0x90, 0xBF)
      else if 0xF1 \<le> b \<and> b \<le> 0xF3 then Some (3, 0x80, 0xBF)
      else if b = 0xF4 then Some (3, 0x80, 0x8F)
      else None)"

fun utf8_valid :: "bytes \<Rightarrow> bool" where
  "utf8_valid [] = True"
| "utf8_valid (b # bs) =
     (if b < 0x80 then utf8_valid bs
      else case utf8_lead b of
             None \<Rightarrow> False
           | Some (n, lo, hi) \<Rightarrow>
               n \<le> length bs \<and> lo \<le> hd bs \<and> hd bs \<le> hi
               \<and> list_all (\<lambda>c. 0x80 \<le> c \<and> c \<le> 0xBF) (take (n - 1) (tl bs))
               \<and> utf8_valid (drop n bs))"

text \<open>
  Fixed-width little-endian encoding of a word (\<open>to_le_bytes\<close>) and its decoding
  (\<open>from_le_bytes\<close>), as bincode writes and reads integers.
\<close>

fun le_bytes :: "nat \<Rightarrow> 'a::len word \<Rightarrow> bytes" where
  "le_bytes 0 w = []"
| "le_bytes (Suc n) w = ucast w # le_bytes n (drop_bit 8 w)"

fun of_le_bytes :: "bytes \<Rightarrow> 'a::len word" where
  "of_le_bytes [] = 0"
| "of_le_bytes (b # bs) = ucast b OR push_bit 8 (of_le_bytes bs)"

section \<open>Collections and lemmas\<close>

named_theorems bit_bounds "facts bounding the set bits of a word by its unsigned value"
named_theorems bytes_simps "equations evaluating the byte encodings on concatenations"

subsection \<open>Words\<close>

text \<open>A word whose unsigned value is below \<open>2 ^ k\<close> has no bit at position \<open>k\<close> or above.\<close>

lemma bit_less_of_unat_less [bit_bounds]:
  fixes w :: "'a::len word"
  assumes "unat w < 2 ^ k" and "bit w n"
  shows "n < k"
proof (rule ccontr)
  assume "\<not> n < k"
  from assms(1) have "take_bit k (unat w) = unat w"
    by (simp add: take_bit_nat_eq_self_iff)
  moreover from assms(2) have "bit (unat w) n"
    by (simp add: bit_unsigned_iff)
  ultimately have "bit (take_bit k (unat w)) n"
    by simp
  with \<open>\<not> n < k\<close> show False
    by (simp add: bit_take_bit_iff)
qed

lemma not_bit_of_unat_less [bit_bounds]:
  fixes w :: "'a::len word"
  shows "unat w < 2 ^ k \<Longrightarrow> k \<le> n \<Longrightarrow> \<not> bit w n"
  using bit_less_of_unat_less by fastforce

text \<open>A word widened to a type at least as long keeps its unsigned value.\<close>

lemma unat_ucast_widen:
  fixes w :: "'a::len word"
  assumes "LENGTH('a) \<le> LENGTH('b)"
  shows "unat (ucast w :: 'b::len word) = unat w"
  using assms by (simp add: unsigned_ucast_eq take_bit_nat_eq_self_iff
      order_less_le_trans[OF unsigned_less] power_increasing)

lemma unat_less_of_len:
  fixes w :: "'a::len word"
  assumes "LENGTH('a) \<le> k"
  shows "unat w < 2 ^ k"
proof -
  have "unat w < 2 ^ LENGTH('a)"
    by (rule unsigned_less)
  also have "(2::nat) ^ LENGTH('a) \<le> 2 ^ k"
    using assms by (rule power_increasing) simp
  finally show ?thesis .
qed

text \<open>Adding \<open>2 ^ 24\<close> to a 32-bit word leaves its low 24 bits unchanged.\<close>

lemma take_bit_24_add_pow:
  "take_bit 24 (a + 2 ^ 24) = take_bit 24 (a :: u32)"
proof -
  have "unat (take_bit 24 (a + 2 ^ 24)) = (unat a + 2 ^ 24) mod 2 ^ 32 mod 2 ^ 24"
    by (simp add: unsigned_take_bit_eq unat_word_ariths take_bit_eq_mod)
  also have "\<dots> = unat (take_bit 24 a)"
    by (simp only: unsigned_take_bit_eq) (simp add: take_bit_eq_mod mod_mod_cancel)
  finally show ?thesis
    by (simp only: word_unat_eq_iff)
qed

subsection \<open>Positional numbers\<close>

text \<open>
  Comparing two numbers written in a base \<open>B\<close> with a low digit below \<open>B\<close> is
  comparing their high parts first, then their low digits.
\<close>

lemma mult_add_less_iff:
  fixes a c r s B :: nat
  assumes "r < B" and "s < B"
  shows "a * B + r < c * B + s \<longleftrightarrow> a < c \<or> (a = c \<and> r < s)"
proof
  assume lt: "a * B + r < c * B + s"
  show "a < c \<or> (a = c \<and> r < s)"
  proof (rule ccontr)
    assume "\<not> (a < c \<or> (a = c \<and> r < s))"
    then have "c < a \<or> (a = c \<and> s \<le> r)"
      by auto
    then show False
    proof
      assume "c < a"
      then have "c * B + B \<le> a * B"
        by (metis add.commute mult_Suc less_eq_Suc_le mult_le_mono1)
      with lt assms(2) show False
        by linarith
    next
      assume "a = c \<and> s \<le> r"
      with lt show False
        by simp
    qed
  qed
next
  assume "a < c \<or> (a = c \<and> r < s)"
  then show "a * B + r < c * B + s"
  proof
    assume "a < c"
    then have "a * B + B \<le> c * B"
      by (metis add.commute mult_Suc less_eq_Suc_le mult_le_mono1)
    with assms(1) show ?thesis
      by linarith
  qed simp
qed

subsection \<open>Rust's remainder on \<open>i32\<close>\<close>

text \<open>
  Rust's \<open>%\<close> on signed integers truncates towards zero: it is \<open>smod\<close> on the
  two's-complement values. Its result is smaller in magnitude than the divisor, so
  for a constant divisor it never overflows and is compared with 0 as an integer.
\<close>

lemma smod_eq_0_iff_dvd:
  "(k::int) smod l = 0 \<longleftrightarrow> l dvd k"
  by (auto simp add: smod_int_alt_def sgn_0_0 dvd_if_abs_eq abs_dvd_iff dvd_eq_mod_eq_0[symmetric])

subsection \<open>Decimal printing\<close>

declare show_nat.simps [simp del]

lemma show_int_of_nat [simp]:
  "show_int (int n) = show_nat n"
  by (simp add: show_int_def)

lemma show_nat_nonempty:
  "show_nat n \<noteq> []"
  by (subst show_nat.simps) simp

text \<open>An \<open>i32\<close> holding a small natural number reads back as that number.\<close>

lemma sint_of_nat_i32:
  "n < 2 ^ 31 \<Longrightarrow> sint (word_of_nat n :: i32) = int n"
proof -
  assume n: "n < 2 ^ 31"
  have "(word_of_nat n :: i32) = word_of_int (int n)"
    by simp
  moreover have "(int n + 2 ^ 31) mod 2 ^ 32 = int n + 2 ^ 31"
    using n by (simp add: mod_pos_pos_trivial)
  ultimately show ?thesis
    by (simp only: int_word_sint) simp
qed

subsection \<open>Bytes\<close>

lemma le_bytes_numeral [bytes_simps]:
  "le_bytes (numeral k) w = ucast w # le_bytes (pred_numeral k) (drop_bit 8 w)"
  by (simp add: numeral_eq_Suc)

lemma length_le_bytes [simp]:
  "length (le_bytes n w) = n"
  by (induction n arbitrary: w) simp_all

lemma of_le_bytes_le_bytes:
  "of_le_bytes (le_bytes n w) = take_bit (8 * n) (w :: 'a::len word)"
proof (induction n arbitrary: w)
  case 0
  then show ?case by simp
next
  case (Suc n)
  show ?case
  proof (rule bit_word_eqI)
    fix k
    show "bit (of_le_bytes (le_bytes (Suc n) w) :: 'a word) k = bit (take_bit (8 * Suc n) w) k"
      using Suc.IH[of "drop_bit 8 w"]
      by (cases "k < 8") (auto simp add: bit_simps dest: bit_imp_le_length)
  qed
qed

lemma of_le_bytes_le_bytes_full:
  "LENGTH('a) \<le> 8 * n \<Longrightarrow> of_le_bytes (le_bytes n w) = (w :: 'a::len word)"
  by (simp add: of_le_bytes_le_bytes take_bit_word_eq_self)

lemma unat_of_char [simp]:
  "unat (of_char c :: u8) = of_char c"
proof -
  have "(of_char c :: u8) = word_of_nat (of_char c)"
    by (simp only: of_nat_of_char)
  then show ?thesis
    by (simp add: unat_of_nat)
qed

lemma string_bytes_bytes_string [simp]:
  "string_bytes (bytes_string bs) = bs"
proof -
  have "(of_char (char_of (unat b)) :: u8) = b" for b :: u8
  proof -
    have "unat b < 256" using unsigned_less[of b] by simp
    then have "(of_char (char_of (unat b)) :: nat) = unat b"
      by (simp add: of_char_of)
    moreover have "(of_char (char_of (unat b)) :: u8) = word_of_nat (of_char (char_of (unat b)))"
      by (simp only: of_nat_of_char)
    ultimately show ?thesis by simp
  qed
  then show ?thesis by (simp add: string_bytes_def bytes_string_def comp_def)
qed

lemma bytes_string_string_bytes [simp]:
  "bytes_string (string_bytes s) = s"
  by (simp add: bytes_string_def string_bytes_def comp_def)

lemma length_string_bytes [simp]:
  "length (string_bytes s) = length s"
  by (simp add: string_bytes_def)

subsection \<open>The \<open>?\<close> operator\<close>

lemma bind_res_simps [simp]:
  "bind_res (Inl e) f = Inl e"
  "bind_res (Inr a) f = f a"
  by (simp_all add: bind_res_def)

lemma bind_res_eq_Inr:
  "bind_res r f = Inr b \<longleftrightarrow> (\<exists>a. r = Inr a \<and> f a = Inr b)"
  by (cases r) simp_all

subsection \<open>Lists and options\<close>

lemma sequence_results_map_Inr [simp]:
  "sequence_results (map Inr xs) = Inr xs"
  by (induction xs) auto

lemma concat_map_singleton_map:
  "concat (map (\<lambda>x. [f x]) xs) = map f xs"
  by (induction xs) auto

end
