(* ===== verification/Scid.thy ===== *)
theory Scid
  imports Prelude
begin

text \<open>
  The record type of the library (\<open>src/src/lib.rs\<close>): the enriched record \<open>UTXO\<close>
  and its short channel id. \<open>scid_from_parts\<close> packs a block height, a position
  in the block and an output index into one 64-bit word; \<open>scid\<close> applies it to a
  record, widening its \<open>u32\<close>/\<open>u16\<close> fields to \<open>u64\<close>. The lemmas show where the
  packing is exact (height below \<open>2 ^ 24\<close>): unpacking recovers the three fields,
  the value is the positional sum, and the order of ids is the lexicographic order of
  the fields. Above that height the shift drops the high bits of the height.
\<close>

unbundle bit_operations_syntax

section \<open>The record \<open>UTXO\<close>\<close>

text \<open>
  \<open>UTXO\<close> in \<open>lib.rs\<close>. The field \<open>id\<close> is renamed \<open>utxo_id\<close> (\<open>id\<close> is the
  identity function of HOL). Strings are Isabelle strings, whose characters are bytes,
  so a string is the UTF-8 byte sequence of the Rust \<open>String\<close>.
\<close>

record utxo =
  block_height :: u32
  utxo_id :: "string option"
  block_index :: u16
  transaction_index :: u16
  amount :: "usize option"

definition MAX_SCID_VOUT_INDEX :: u64 where
  "MAX_SCID_VOUT_INDEX = 0xffff"

section \<open>Packing\<close>

text \<open>
  \<open>(block << 40) | (tx_index << 16) | vout_index\<close> on \<open>u64\<close>. Rust's \<open><<\<close> by a
  constant below 64 drops the bits shifted out, as \<open>push_bit\<close> on a 64-bit word does.
\<close>

definition scid_from_parts :: "u64 \<Rightarrow> u64 \<Rightarrow> u64 \<Rightarrow> u64" where
  "scid_from_parts block tx_index vout_index =
     push_bit 40 block OR push_bit 16 tx_index OR vout_index"

definition scid :: "utxo \<Rightarrow> u64" where
  "scid u = scid_from_parts (ucast (block_height u)) (ucast (block_index u))
              (ucast (transaction_index u))"

section \<open>Unpacking (specification)\<close>

text \<open>
  The three fields of an id, read back by shifting and masking: the height in bits
  40 to 63, the position in bits 16 to 39, the output index in bits 0 to 15. The crate
  has no decoder; these state what the layout promises.
\<close>

definition scid_block :: "u64 \<Rightarrow> u64" where
  "scid_block s = drop_bit 40 s"

definition scid_tx_index :: "u64 \<Rightarrow> u64" where
  "scid_tx_index s = take_bit 24 (drop_bit 16 s)"

definition scid_vout :: "u64 \<Rightarrow> u64" where
  "scid_vout s = take_bit 16 s"

definition scid_parts :: "u64 \<Rightarrow> u64 \<times> u64 \<times> u64" where
  "scid_parts s = (scid_block s, scid_tx_index s, scid_vout s)"

definition scid_fits :: "u64 \<Rightarrow> u64 \<Rightarrow> u64 \<Rightarrow> bool" where
  "scid_fits b t v \<longleftrightarrow> unat b < 2 ^ 24 \<and> unat t < 2 ^ 24 \<and> unat v < 2 ^ 16"

text \<open>
  A record's position and output index are \<open>u16\<close>, so they always fit their fields;
  its height is \<open>u32\<close> and fits the 24 bits of the height field only below
  \<open>2 ^ 24\<close> (16,777,216).
\<close>

definition utxo_fits :: "utxo \<Rightarrow> bool" where
  "utxo_fits u \<longleftrightarrow> unat (block_height u) < 2 ^ 24"

section \<open>Round trip of the packing\<close>

lemma scid_block_from_parts:
  assumes "scid_fits b t v"
  shows "scid_block (scid_from_parts b t v) = b"
proof (rule bit_word_eqI)
  fix n
  from assms have "unat b < 2 ^ 24" "unat t < 2 ^ 24" "unat v < 2 ^ 16"
    by (simp_all add: scid_fits_def)
  then show "bit (scid_block (scid_from_parts b t v)) n = bit b n"
    using bit_less_of_unat_less[of b 24 n] bit_less_of_unat_less[of t 24 "24 + n"]
      bit_less_of_unat_less[of v 16 "40 + n"]
    by (auto simp add: scid_block_def scid_from_parts_def bit_simps)
qed

lemma scid_tx_index_from_parts:
  assumes "scid_fits b t v"
  shows "scid_tx_index (scid_from_parts b t v) = t"
proof (rule bit_word_eqI)
  fix n
  from assms have "unat t < 2 ^ 24" "unat v < 2 ^ 16"
    by (simp_all add: scid_fits_def)
  then show "bit (scid_tx_index (scid_from_parts b t v)) n = bit t n"
    using bit_less_of_unat_less[of t 24 n] bit_less_of_unat_less[of v 16 "16 + n"]
    by (auto simp add: scid_tx_index_def scid_from_parts_def bit_simps)
qed

lemma scid_vout_from_parts:
  assumes "unat v < 2 ^ 16"
  shows "scid_vout (scid_from_parts b t v) = v"
proof (rule bit_word_eqI)
  fix n
  show "bit (scid_vout (scid_from_parts b t v)) n = bit v n"
    using bit_less_of_unat_less[OF assms, of n]
    by (auto simp add: scid_vout_def scid_from_parts_def bit_simps)
qed

lemma scid_parts_from_parts:
  "scid_fits b t v \<Longrightarrow> scid_parts (scid_from_parts b t v) = (b, t, v)"
  by (simp add: scid_parts_def scid_block_from_parts scid_tx_index_from_parts
      scid_vout_from_parts scid_fits_def)

text \<open>
  Every 64-bit word is the positional sum of its three fields, so an id is determined
  by what \<open>scid_parts\<close> reads from it.
\<close>

lemma unat_scid_decompose:
  "unat s = unat (scid_block s) * 2 ^ 40 + unat (scid_tx_index s) * 2 ^ 16 + unat (scid_vout s)"
proof -
  have full: "take_bit 64 (unat s) = unat s"
    using unsigned_less[of s] by (simp add: take_bit_nat_eq_self_iff)
  then have "unat (scid_tx_index s) = take_bit 24 (drop_bit 16 (unat s))"
    by (simp add: scid_tx_index_def unsigned_take_bit_eq unsigned_drop_bit_eq)
  also have "\<dots> = unat s div 2 ^ 16 mod 2 ^ 24"
    by (simp add: drop_bit_eq_div take_bit_eq_mod)
  finally have tx: "unat (scid_tx_index s) = unat s div 2 ^ 16 mod 2 ^ 24" .
  from full have "unat (scid_block s) = drop_bit 40 (unat s)"
    by (simp add: scid_block_def unsigned_drop_bit_eq)
  then have bl: "unat (scid_block s) = unat s div 2 ^ 40"
    by (simp add: drop_bit_eq_div)
  have "unat (scid_vout s) = take_bit 16 (unat s)"
    by (simp add: scid_vout_def unsigned_take_bit_eq)
  then have vo: "unat (scid_vout s) = unat s mod 2 ^ 16"
    by (simp add: take_bit_eq_mod)
  have "unat s = unat s div 2 ^ 40 * 2 ^ 40 + unat s mod 2 ^ 40"
    by simp
  also have "unat s mod 2 ^ 40 = 2 ^ 16 * (unat s div 2 ^ 16 mod 2 ^ 24) + unat s mod 2 ^ 16"
    using mod_mult2_eq[of "unat s" "2 ^ 16" "2 ^ 24"] by (simp flip: power_add)
  finally show ?thesis
    by (simp only: tx bl vo) simp
qed

lemma unat_scid_from_parts:
  "scid_fits b t v \<Longrightarrow>
     unat (scid_from_parts b t v) = unat b * 2 ^ 40 + unat t * 2 ^ 16 + unat v"
  using unat_scid_decompose[of "scid_from_parts b t v"]
  by (simp add: scid_block_from_parts scid_tx_index_from_parts scid_vout_from_parts scid_fits_def)

section \<open>The id of a record\<close>

lemma scid_fits_utxo:
  "utxo_fits u \<Longrightarrow>
     scid_fits (ucast (block_height u)) (ucast (block_index u)) (ucast (transaction_index u))"
  using unat_less_of_len[where w = "block_index u" and k = 24]
    unat_less_of_len[where w = "transaction_index u" and k = 16]
  by (simp add: utxo_fits_def scid_fits_def unat_ucast_widen)

lemma unat_scid_utxo:
  "utxo_fits u \<Longrightarrow>
     unat (scid u) = unat (block_height u) * 2 ^ 40
       + (unat (block_index u) * 2 ^ 16 + unat (transaction_index u))"
  by (simp add: scid_def unat_scid_from_parts scid_fits_utxo unat_ucast_widen)

lemma scid_low_part_less:
  "unat (block_index u) * 2 ^ 16 + unat (transaction_index u) < (2 ^ 40 :: nat)"
proof -
  have "unat (block_index u) * 2 ^ 16 + unat (transaction_index u)
          < (unat (block_index u) + 1) * 2 ^ 16"
    using unat_less_of_len[where w = "transaction_index u" and k = 16] by simp
  also have "\<dots> \<le> 2 ^ 16 * 2 ^ 16"
  proof (rule mult_le_mono1)
    show "unat (block_index u) + 1 \<le> 2 ^ 16"
      using unat_less_of_len[where w = "block_index u" and k = 16] by simp
  qed
  finally show ?thesis
    by simp
qed

lemma push_bit_ucast_take_bit_24:
  "push_bit 40 (ucast (take_bit 24 x) :: u64) = push_bit 40 (ucast (x :: u32))"
  by (rule bit_word_eqI) (auto simp add: bit_simps)

lemma scid_or_plus:
  "scid u = push_bit 40 (ucast (block_height u)) + push_bit 16 (ucast (block_index u)) + ucast (transaction_index u)"
proof -
  let ?a = "push_bit 40 (ucast (block_height u)) :: u64"
  let ?b = "push_bit 16 (ucast (block_index u)) :: u64"
  let ?c = "ucast (transaction_index u) :: u64"
  have ab: "?a AND ?b = 0"
    by (rule bit_word_eqI) (auto simp: bit_simps dest: bit_imp_le_length)
  have abc: "(?a OR ?b) AND ?c = 0"
    by (rule bit_word_eqI) (auto simp: bit_simps dest: bit_imp_le_length)
  have "?a OR ?b OR ?c = (?a OR ?b) OR ?c"
    by (simp add: or.assoc)
  also have "\<dots> = ?a + ?b + ?c"
    using disjunctive_add_eq_or[OF ab] disjunctive_add_eq_or[OF abc] by simp
  finally show ?thesis
    by (simp add: scid_def scid_from_parts_def)
qed
section \<open>Properties of the id\<close>

text \<open>
  C1 (round trip). For a record whose block height is below \<open>2 ^ 24\<close>, reading the
  three fields back out of its short channel id by shifting and masking gives exactly
  its block height, its position in the block and its output index.
\<close>

theorem scid_roundtrip:
  "utxo_fits u \<Longrightarrow>
     scid_parts (scid u)
       = (ucast (block_height u), ucast (block_index u), ucast (transaction_index u))"
  by (simp add: scid_def scid_parts_from_parts scid_fits_utxo)

theorem scid_roundtrip_witness:
  "utxo_fits \<lparr>block_height = 691709, utxo_id = None, block_index = 1160,
      transaction_index = 1, amount = None\<rparr>
   \<and> scid_parts (scid \<lparr>block_height = 691709, utxo_id = None, block_index = 1160,
      transaction_index = 1, amount = None\<rparr>) = (691709, 1160, 1)"
proof -
  have h: "utxo_fits \<lparr>block_height = 691709, utxo_id = None, block_index = 1160,
      transaction_index = 1, amount = None\<rparr>"
    by (simp add: utxo_fits_def)
  show ?thesis
    using h scid_roundtrip[OF h] by simp
qed

text \<open>
  C2 (order). For records whose heights fit the height field, comparing their short
  channel ids as unsigned 64-bit numbers is comparing (height, position, output index)
  lexicographically: the id is a sort key for the records.
\<close>

theorem scid_less_iff:
  assumes "utxo_fits u" and "utxo_fits v"
  shows "scid u < scid v \<longleftrightarrow>
           block_height u < block_height v
           \<or> (block_height u = block_height v
              \<and> (block_index u < block_index v
                 \<or> (block_index u = block_index v \<and> transaction_index u < transaction_index v)))"
proof -
  have "scid u < scid v \<longleftrightarrow> unat (scid u) < unat (scid v)"
    by (simp add: word_less_nat_alt)
  also have "\<dots> \<longleftrightarrow> unat (block_height u) < unat (block_height v)
      \<or> (unat (block_height u) = unat (block_height v)
         \<and> unat (block_index u) * 2 ^ 16 + unat (transaction_index u)
           < unat (block_index v) * 2 ^ 16 + unat (transaction_index v))"
    unfolding unat_scid_utxo[OF assms(1)] unat_scid_utxo[OF assms(2)]
    by (rule mult_add_less_iff[OF scid_low_part_less scid_low_part_less])
  also have "\<dots> \<longleftrightarrow> block_height u < block_height v
           \<or> (block_height u = block_height v
              \<and> (block_index u < block_index v
                 \<or> (block_index u = block_index v \<and> transaction_index u < transaction_index v)))"
    using unat_less_of_len[where w = "transaction_index u" and k = 16]
      unat_less_of_len[where w = "transaction_index v" and k = 16]
    by (simp add: mult_add_less_iff word_less_nat_alt word_unat_eq_iff)
  finally show ?thesis .
qed

theorem scid_less_iff_witness:
  "utxo_fits \<lparr>block_height = 700000, utxo_id = None, block_index = 7,
      transaction_index = 300, amount = None\<rparr>
   \<and> utxo_fits \<lparr>block_height = 700000, utxo_id = None, block_index = 8,
      transaction_index = 0, amount = None\<rparr>
   \<and> scid \<lparr>block_height = 700000, utxo_id = None, block_index = 7,
      transaction_index = 300, amount = None\<rparr>
     < scid \<lparr>block_height = 700000, utxo_id = None, block_index = 8,
      transaction_index = 0, amount = None\<rparr>"
proof -
  have hu: "utxo_fits \<lparr>block_height = 700000, utxo_id = None, block_index = 7,
      transaction_index = 300, amount = None\<rparr>"
    by (simp add: utxo_fits_def)
  have hv: "utxo_fits \<lparr>block_height = 700000, utxo_id = None, block_index = 8,
      transaction_index = 0, amount = None\<rparr>"
    by (simp add: utxo_fits_def)
  show ?thesis
    using hu hv scid_less_iff[OF hu hv] by simp
qed

text \<open>
  C3 (bounds). The height is a \<open>u32\<close> but only 24 bits of it reach the id:
  \<open>block << 40\<close> drops the rest. Two records whose heights differ by \<open>2 ^ 24\<close>
  and agree otherwise get the same short channel id, so the id is not injective on
  the values the record type admits.
\<close>

theorem scid_drops_high_height_bits:
  "scid (u\<lparr>block_height := block_height u + 2 ^ 24\<rparr>) = scid u"
proof -
  have "push_bit 40 (ucast (block_height u + 2 ^ 24) :: u64) = push_bit 40 (ucast (block_height u))"
    by (metis push_bit_ucast_take_bit_24 take_bit_24_add_pow)
  then show ?thesis
    by (simp add: scid_def scid_from_parts_def)
qed

text \<open>
  C4 (bounds). \<open>MAX_SCID_VOUT_INDEX\<close> is exactly the largest output index that
  \<open>scid_from_parts\<close> keeps: an index is read back from the low 16 bits of every id
  built with it, whatever the block and position, if and only if it is at most
  \<open>MAX_SCID_VOUT_INDEX\<close>; a larger index spills into the position field.
\<close>

theorem scid_from_parts_vout_iff_max:
  "(\<forall>b t. scid_vout (scid_from_parts b t v) = v) \<longleftrightarrow> v \<le> MAX_SCID_VOUT_INDEX"
proof
  assume all: "\<forall>b t. scid_vout (scid_from_parts b t v) = v"
  have "unat (scid_vout (scid_from_parts 0 0 v)) = take_bit 16 (unat v)"
    by (simp add: scid_vout_def scid_from_parts_def unsigned_take_bit_eq)
  also have "\<dots> < 2 ^ 16"
    by (rule take_bit_nat_less_exp)
  finally show "v \<le> MAX_SCID_VOUT_INDEX"
    using all by (simp add: MAX_SCID_VOUT_INDEX_def word_le_nat_alt)
next
  assume "v \<le> MAX_SCID_VOUT_INDEX"
  then have "unat v < 2 ^ 16"
    by (simp add: MAX_SCID_VOUT_INDEX_def word_le_nat_alt)
  then show "\<forall>b t. scid_vout (scid_from_parts b t v) = v"
    by (simp add: scid_vout_from_parts)
qed

text \<open>
  C27 (equivalence). The bitwise definition \<open>(block << 40) | (tx_index << 16) | vout_index\<close>
  on the widened fields equals the arithmetic one, height times \<open>2 ^ 40\<close> plus position
  times \<open>2 ^ 16\<close> plus output index, taken modulo \<open>2 ^ 64\<close>, for every record: the
  three shifted fields never share a bit, so the ORs are additions.
\<close>

theorem scid_arith:
  "scid u = word_of_nat (unat (block_height u) * 2 ^ 40 + unat (block_index u) * 2 ^ 16 + unat (transaction_index u))"
  unfolding scid_or_plus by (simp add: push_bit_eq_mult of_nat_mult unat_ucast_widen)
end
