(* ===== verification/Dump.thy ===== *)
theory Dump
  imports Prelude
begin

text \<open>
  The two input record types of \<open>src/src/bin/main.rs\<close> and the errors of reading
  them. \<open>UtxoDump\<close> is one row of the UTXO dump, \<open>IterateDump\<close> one row of the
  position dump. A CSV reader yields, per row, either a decoded record or an error;
  the loops of \<open>main\<close> take these results in order and stop at the first error
  (\<open>result?\<close>).
\<close>

section \<open>Records of the dumps\<close>

text \<open>
  \<open>UtxoDump\<close>: \<open>txid\<close>, \<open>vout: u16\<close>, \<open>height: u32\<close>, \<open>amount: usize\<close>. The
  field \<open>amount\<close> is named \<open>dump_amount\<close>, since \<open>amount\<close> is a field of
  \<open>UTXO\<close>.
\<close>

record utxo_dump =
  txid :: string
  vout :: u16
  height :: u32
  dump_amount :: usize

text \<open>
  \<open>IterateDump\<close>: \<open>txid\<close> and \<open>tx_height: u16\<close>, the position of the transaction
  in its block. The field \<open>txid\<close> is named \<open>iterate_txid\<close>.
\<close>

record iterate_dump =
  iterate_txid :: string
  tx_height :: u16

section \<open>Errors of reading a dump\<close>

text \<open>
  \<open>IntErrorKind\<close> of Rust's integer parsing, and the failures of the \<open>csv\<close> reader:
  a path that cannot be opened, a row that is not UTF-8, a row whose number of fields
  differs from the first row's, a missing field, a field that is not a number of the
  field's type.
\<close>

datatype int_error = Empty | InvalidDigit | PosOverflow

datatype csv_error =
    Io string
  | InvalidUtf8
  | UnequalLengths nat nat
  | MissingField string
  | DuplicateField string
  | InvalidLength nat
  | ParseInt string int_error

type_synonym 'a row_result = "csv_error + 'a"

text \<open>
  A CSV file as the \<open>csv\<close> reader splits it: its records, each a list of fields,
  each field a byte string. The lexer itself (quoting, delimiters, line ends) is not
  modelled.
\<close>

type_synonym csv_rows = "bytes list list"

section \<open>Parsing an unsigned integer field\<close>

text \<open>
  \<open>char::to_digit\<close> on a byte read as a character: \<open>0\<close>..\<open>9\<close> are 0..9, the
  letters \<open>a\<close>..\<open>z\<close> and \<open>A\<close>..\<open>Z\<close> are 10..35, and the digit must be below
  the radix; any other byte is no digit.
\<close>

definition to_digit :: "nat \<Rightarrow> u8 \<Rightarrow> nat option" where
  "to_digit radix c =
     (let d = (if 0x30 \<le> c \<and> c \<le> 0x39 then unat c - 0x30
               else if 0x61 \<le> c \<and> c \<le> 0x7A then unat c - 0x61 + 10
               else if 0x41 \<le> c \<and> c \<le> 0x5A then unat c - 0x41 + 10
               else radix)
      in if d < radix then Some d else None)"

text \<open>
  \<open>from_str_radix\<close> for an unsigned type of \<open>w\<close> bits: an empty string is
  \<open>Empty\<close>; a lone sign is \<open>InvalidDigit\<close>; a leading \<open>+\<close> is skipped (a
  leading \<open>-\<close> is not, and fails as a digit); then each byte must be a digit of the
  radix, and the value must stay below \<open>2 ^ w\<close>. The digit is checked before the
  overflow, as in the library. \<open>str::parse\<close> is radix 10.
\<close>

fun parse_digits :: "nat \<Rightarrow> nat \<Rightarrow> nat \<Rightarrow> bytes \<Rightarrow> int_error + nat" where
  "parse_digits radix bound acc [] = Inr acc"
| "parse_digits radix bound acc (c # cs) =
     (case to_digit radix c of
        None \<Rightarrow> Inl InvalidDigit
      | Some d \<Rightarrow>
          (let r = acc * radix + d
           in if bound \<le> r then Inl PosOverflow else parse_digits radix bound r cs))"

definition from_str_radix :: "nat \<Rightarrow> bytes \<Rightarrow> int_error + ('a::len word)" where
  "from_str_radix radix s =
     (case s of
        [] \<Rightarrow> Inl Empty
      | c # cs \<Rightarrow>
          if (c = 0x2B \<or> c = 0x2D) \<and> cs = [] then Inl InvalidDigit
          else map_sum id word_of_nat
                 (parse_digits radix (2 ^ LENGTH('a)) 0 (if c = 0x2B then cs else c # cs)))"

text \<open>
  The \<open>csv\<close> deserializer reads every integer field by \<open>deserialize_int\<close>: a
  field that starts with \<open>0x\<close> is the hexadecimal number after the prefix, any
  other field goes to \<open>str::parse\<close>.
\<close>

definition deserialize_int :: "bytes \<Rightarrow> int_error + ('a::len word)" where
  "deserialize_int v =
     (if take 2 v = [0x30, 0x78] then from_str_radix 16 (drop 2 v) else from_str_radix 10 v)"

section \<open>Decoding a row of the UTXO dump\<close>

text \<open>
  \<open>UtxoDump\<close> is read with a header row, so the derived \<open>Deserialize\<close> sees each
  row as a map from header names to fields (\<open>visit_map\<close>): fields are taken in
  column order, a known name seen twice is \<open>duplicate_field\<close>, an unknown name is
  skipped, and at the end a missing field is reported in declaration order.
\<close>

record utxo_dump_partial =
  p_txid :: "string option"
  p_vout :: "u16 option"
  p_height :: "u32 option"
  p_amount :: "usize option"

definition empty_partial :: utxo_dump_partial where
  "empty_partial = \<lparr>p_txid = None, p_vout = None, p_height = None, p_amount = None\<rparr>"

definition parse_field :: "string \<Rightarrow> bytes \<Rightarrow> csv_error + ('a::len word)" where
  "parse_field name v = map_sum (ParseInt name) id (deserialize_int v)"

fun utxo_dump_visit_map ::
  "(string \<times> bytes) list \<Rightarrow> utxo_dump_partial \<Rightarrow> csv_error + utxo_dump_partial"
where
  "utxo_dump_visit_map [] p = Inr p"
| "utxo_dump_visit_map ((k, v) # kvs) p =
     (if k = ''txid'' then
        (if p_txid p \<noteq> None then Inl (DuplicateField ''txid'')
         else utxo_dump_visit_map kvs (p\<lparr>p_txid := Some (bytes_string v)\<rparr>))
      else if k = ''vout'' then
        (if p_vout p \<noteq> None then Inl (DuplicateField ''vout'')
         else bind_res (parse_field ''vout'' v) (\<lambda>x. utxo_dump_visit_map kvs (p\<lparr>p_vout := Some x\<rparr>)))
      else if k = ''height'' then
        (if p_height p \<noteq> None then Inl (DuplicateField ''height'')
         else bind_res (parse_field ''height'' v) (\<lambda>x. utxo_dump_visit_map kvs (p\<lparr>p_height := Some x\<rparr>)))
      else if k = ''amount'' then
        (if p_amount p \<noteq> None then Inl (DuplicateField ''amount'')
         else bind_res (parse_field ''amount'' v) (\<lambda>x. utxo_dump_visit_map kvs (p\<lparr>p_amount := Some x\<rparr>)))
      else utxo_dump_visit_map kvs p)"

definition utxo_dump_finish :: "utxo_dump_partial \<Rightarrow> csv_error + utxo_dump" where
  "utxo_dump_finish p =
     (case (p_txid p, p_vout p, p_height p, p_amount p) of
        (None, _, _, _) \<Rightarrow> Inl (MissingField ''txid'')
      | (_, None, _, _) \<Rightarrow> Inl (MissingField ''vout'')
      | (_, _, None, _) \<Rightarrow> Inl (MissingField ''height'')
      | (_, _, _, None) \<Rightarrow> Inl (MissingField ''amount'')
      | (Some t, Some vo, Some h, Some a) \<Rightarrow>
          Inr \<lparr>txid = t, vout = vo, height = h, dump_amount = a\<rparr>)"

text \<open>
  Without usable headers the derive reads the fields in declaration order
  (\<open>visit_seq\<close>): each \<open>next_element\<close> takes the next field, a missing one is
  \<open>invalid_length\<close> with the number of fields read so far, and the field is decoded
  before the next one is taken. Extra fields are not read.
\<close>

definition seq_next :: "nat \<Rightarrow> bytes list \<Rightarrow> csv_error + (bytes \<times> bytes list)" where
  "seq_next i fs = (case fs of [] \<Rightarrow> Inl (InvalidLength i) | f # rest \<Rightarrow> Inr (f, rest))"

definition utxo_dump_visit_seq :: "bytes list \<Rightarrow> csv_error + utxo_dump" where
  "utxo_dump_visit_seq fs0 =
     bind_res (seq_next 0 fs0) (\<lambda>(f0, fs1).
     bind_res (seq_next 1 fs1) (\<lambda>(f1, fs2).
     bind_res (parse_field ''vout'' f1) (\<lambda>vo.
     bind_res (seq_next 2 fs2) (\<lambda>(f2, fs3).
     bind_res (parse_field ''height'' f2) (\<lambda>h.
     bind_res (seq_next 3 fs3) (\<lambda>(f3, _).
     bind_res (parse_field ''amount'' f3) (\<lambda>a.
       Inr \<lparr>txid = bytes_string f0, vout = vo, height = h, dump_amount = a\<rparr>)))))))"

text \<open>
  One data row: the reader is not flexible, so a row whose length differs from the
  header's is \<open>UnequalLengths\<close>; a row that is not UTF-8 cannot become a
  \<open>StringRecord\<close>; then the derive decodes it, by header names when the header row
  is UTF-8 (\<open>headers().ok()\<close>) and by position otherwise.
\<close>

definition decode_utxo_dump_row :: "bytes list \<Rightarrow> bytes list \<Rightarrow> utxo_dump row_result" where
  "decode_utxo_dump_row hdr fs =
     (if length fs \<noteq> length hdr then Inl (UnequalLengths (length hdr) (length fs))
      else if \<not> list_all utf8_valid fs then Inl InvalidUtf8
      else if list_all utf8_valid hdr
      then bind_res (utxo_dump_visit_map (zip (map bytes_string hdr) fs) empty_partial) utxo_dump_finish
      else utxo_dump_visit_seq fs)"

text \<open>\<open>Reader::from_path\<close> has headers: the first record is the header row.\<close>

definition read_utxo_dump :: "csv_rows \<Rightarrow> utxo_dump row_result list" where
  "read_utxo_dump rows =
     (case rows of [] \<Rightarrow> [] | hdr # recs \<Rightarrow> map (decode_utxo_dump_row hdr) recs)"

section \<open>Decoding a row of the position dump\<close>

text \<open>
  The position dump is read with \<open>has_headers(false)\<close>: every record is data, the
  first record fixes the number of fields, and the derive reads \<open>txid\<close> and
  \<open>tx_height\<close> by position.
\<close>

definition iterate_dump_visit_seq :: "bytes list \<Rightarrow> csv_error + iterate_dump" where
  "iterate_dump_visit_seq fs0 =
     bind_res (seq_next 0 fs0) (\<lambda>(f0, fs1).
     bind_res (seq_next 1 fs1) (\<lambda>(f1, _).
     bind_res (parse_field ''tx_height'' f1) (\<lambda>th.
       Inr \<lparr>iterate_txid = bytes_string f0, tx_height = th\<rparr>)))"

definition decode_iterate_row :: "nat \<Rightarrow> bytes list \<Rightarrow> iterate_dump row_result" where
  "decode_iterate_row n fs =
     (if length fs \<noteq> n then Inl (UnequalLengths n (length fs))
      else if \<not> list_all utf8_valid fs then Inl InvalidUtf8
      else iterate_dump_visit_seq fs)"

definition read_iterate_dump :: "csv_rows \<Rightarrow> iterate_dump row_result list" where
  "read_iterate_dump rows =
     (case rows of [] \<Rightarrow> [] | r0 # _ \<Rightarrow> map (decode_iterate_row (length r0)) rows)"

section \<open>Specification of the decoders\<close>

text \<open>
  What the named columns of a row put into the partial record: each of the four
  names present in the map sets its field, the others keep theirs; and the
  condition that every numeric column present parses.
\<close>

definition fields_partial :: "(string \<rightharpoonup> bytes) \<Rightarrow> utxo_dump_partial \<Rightarrow> utxo_dump_partial" where
  "fields_partial m p =
     p\<lparr>p_txid := (case m ''txid'' of None \<Rightarrow> p_txid p | Some v \<Rightarrow> Some (bytes_string v)),
       p_vout := (case m ''vout'' of None \<Rightarrow> p_vout p | Some v \<Rightarrow> Some (projr (deserialize_int v))),
       p_height := (case m ''height'' of None \<Rightarrow> p_height p | Some v \<Rightarrow> Some (projr (deserialize_int v))),
       p_amount := (case m ''amount'' of None \<Rightarrow> p_amount p | Some v \<Rightarrow> Some (projr (deserialize_int v)))\<rparr>"

definition fields_parse :: "(string \<rightharpoonup> bytes) \<Rightarrow> bool" where
  "fields_parse m \<longleftrightarrow>
     (case m ''vout'' of None \<Rightarrow> True | Some v \<Rightarrow> \<not> isl (deserialize_int v :: int_error + u16)) \<and>
     (case m ''height'' of None \<Rightarrow> True | Some v \<Rightarrow> \<not> isl (deserialize_int v :: int_error + u32)) \<and>
     (case m ''amount'' of None \<Rightarrow> True | Some v \<Rightarrow> \<not> isl (deserialize_int v :: int_error + usize))"

section \<open>Decoding a row by header names\<close>

lemma utxo_dump_visit_map_fields:
  "distinct (map fst kvs) \<Longrightarrow> fields_parse (map_of kvs) \<Longrightarrow>
   (''txid'' \<in> fst ` set kvs \<longrightarrow> p_txid p = None) \<Longrightarrow>
   (''vout'' \<in> fst ` set kvs \<longrightarrow> p_vout p = None) \<Longrightarrow>
   (''height'' \<in> fst ` set kvs \<longrightarrow> p_height p = None) \<Longrightarrow>
   (''amount'' \<in> fst ` set kvs \<longrightarrow> p_amount p = None) \<Longrightarrow>
   utxo_dump_visit_map kvs p = Inr (fields_partial (map_of kvs) p)"
proof (induction kvs arbitrary: p)
  case Nil
  then show ?case by (simp add: fields_partial_def split: option.splits)
next
  case (Cons kv kvs)
  obtain k v where kv: "kv = (k, v)" by (cases kv)
  have k: "map_of kvs k = None" using Cons.prems(1) kv by (simp add: map_of_eq_None_iff)
  have fp: "fields_parse (map_of kvs)"
    using Cons.prems(2) k kv by (auto simp: fields_parse_def split: option.splits if_splits)
  have dk: "distinct (map fst kvs)" using Cons.prems(1) by simp
  note IH = Cons.IH[OF dk fp]
  consider "k = ''txid''" | "k = ''vout''" | "k = ''height''" | "k = ''amount''"
    | "k \<notin> {''txid'', ''vout'', ''height'', ''amount''}" by blast
  then show ?case
  proof cases
    case 1
    then show ?thesis using Cons.prems k kv IH[of "p\<lparr>p_txid := Some (bytes_string v)\<rparr>"]
      by (simp add: fields_partial_def split: option.splits)
  next
    case 2
    obtain x where x: "deserialize_int v = (Inr x :: int_error + u16)"
      using Cons.prems(2) 2 kv by (cases "deserialize_int v :: int_error + u16") (simp_all add: fields_parse_def)
    then show ?thesis using Cons.prems k kv 2 IH[of "p\<lparr>p_vout := Some x\<rparr>"]
      by (simp add: fields_partial_def parse_field_def split: option.splits)
  next
    case 3
    obtain x where x: "deserialize_int v = (Inr x :: int_error + u32)"
      using Cons.prems(2) 3 kv by (cases "deserialize_int v :: int_error + u32") (simp_all add: fields_parse_def)
    then show ?thesis using Cons.prems k kv 3 IH[of "p\<lparr>p_height := Some x\<rparr>"]
      by (simp add: fields_partial_def parse_field_def split: option.splits)
  next
    case 4
    obtain x where x: "deserialize_int v = (Inr x :: int_error + usize)"
      using Cons.prems(2) 4 kv by (cases "deserialize_int v :: int_error + usize") (simp_all add: fields_parse_def)
    then show ?thesis using Cons.prems k kv 4 IH[of "p\<lparr>p_amount := Some x\<rparr>"]
      by (simp add: fields_partial_def parse_field_def split: option.splits)
  next
    case 5
    then show ?thesis using Cons.prems k kv IH[of p]
      by (simp add: fields_partial_def split: option.splits)
  qed
qed

text \<open>
  A well-formed row with a UTF-8 header of distinct names whose numeric columns parse:
  decoding it is finishing the partial record its named columns give.
\<close>

lemma decode_utxo_dump_row_fields:
  assumes len: "length fs = length hdr"
    and utf: "list_all utf8_valid fs" "list_all utf8_valid hdr"
    and dist: "distinct (map bytes_string hdr)"
    and fp: "fields_parse (map_of (zip (map bytes_string hdr) fs))"
  shows "decode_utxo_dump_row hdr fs =
           utxo_dump_finish (fields_partial (map_of (zip (map bytes_string hdr) fs)) empty_partial)"
proof -
  let ?kvs = "zip (map bytes_string hdr) fs"
  have "distinct (map fst ?kvs)" using len dist by simp
  then have "utxo_dump_visit_map ?kvs empty_partial = Inr (fields_partial (map_of ?kvs) empty_partial)"
    using fp by (intro utxo_dump_visit_map_fields) (simp_all add: empty_partial_def)
  then show ?thesis
    using len utf by (simp add: decode_utxo_dump_row_def)
qed

section \<open>Properties of row decoding\<close>

text \<open>
  C20 (\<open>UtxoDump\<close> rows are read by column name): a UTF-8 row as long as a UTF-8
  header with distinct names, whose four named columns are present and whose numeric
  ones parse as \<open>csv\<close> reads integers (decimal, or hexadecimal after \<open>0x\<close>), decodes to the record of those columns; the column order and any other
  columns (as the dump's \<open>count\<close>, \<open>coinbase\<close>, \<open>address\<close>) do not matter.
\<close>

theorem decode_utxo_dump_row_by_name:
  assumes len: "length fs = length hdr"
    and utf: "list_all utf8_valid fs" "list_all utf8_valid hdr"
    and dist: "distinct (map bytes_string hdr)"
    and m: "m = map_of (zip (map bytes_string hdr) fs)"
    and t: "m ''txid'' = Some t"
    and vo: "m ''vout'' = Some v" "deserialize_int v = Inr vo"
    and h: "m ''height'' = Some hb" "deserialize_int hb = Inr h"
    and a: "m ''amount'' = Some ab" "deserialize_int ab = Inr a"
  shows "decode_utxo_dump_row hdr fs =
           Inr \<lparr>txid = bytes_string t, vout = vo, height = h, dump_amount = a\<rparr>"
proof -
  have "fields_parse m"
    using vo h a by (simp add: fields_parse_def)
  with decode_utxo_dump_row_fields[OF len utf dist] m show ?thesis
    using t vo h a by (simp add: fields_partial_def empty_partial_def utxo_dump_finish_def)
qed

lemma decode_utxo_dump_row_by_name_witness:
  "decode_utxo_dump_row (map string_bytes [''count'', ''amount'', ''txid'', ''vout'', ''height''])
                              (map string_bytes [''1'', ''0x1388'', ''abc'', ''2'', ''100''])
     = Inr \<lparr>txid = ''abc'', vout = 2, height = 100, dump_amount = 5000\<rparr>"
  by (rule decode_utxo_dump_row_by_name[where m = "map_of (zip [''count'', ''amount'', ''txid'', ''vout'', ''height'']
        (map string_bytes [''1'', ''0x1388'', ''abc'', ''2'', ''100'']))" and t = "string_bytes ''abc''"
        and v = "string_bytes ''2''" and hb = "string_bytes ''100''" and ab = "string_bytes ''0x1388''",
        simplified bytes_string_string_bytes])
     (simp_all add: string_bytes_def bytes_string_def char_of_def bit_0 utf8_lead_def deserialize_int_def from_str_radix_def to_digit_def)
text \<open>
  C29 (error). A UTXO dump whose header lacks one of the four field names fails on
  every data row whose numeric columns parse, with \<open>missing_field\<close> for the first
  absent name in declaration order (txid, vout, height, amount). The witness is a
  header of a dump made without the \<open>height\<close> column.
\<close>

theorem decode_utxo_dump_row_missing_field:
  assumes len: "length fs = length hdr"
    and utf: "list_all utf8_valid fs" "list_all utf8_valid hdr"
    and dist: "distinct (map bytes_string hdr)"
    and m: "m = map_of (zip (map bytes_string hdr) fs)"
    and fp: "fields_parse m"
    and k: "find (\<lambda>k. m k = None) [''txid'', ''vout'', ''height'', ''amount''] = Some k"
  shows "decode_utxo_dump_row hdr fs = Inl (MissingField k)"
proof -
  have "utxo_dump_finish (fields_partial m empty_partial) = Inl (MissingField k)"
    using k by (auto simp add: utxo_dump_finish_def fields_partial_def empty_partial_def
                         split: option.splits if_splits)
  then show ?thesis
    using decode_utxo_dump_row_fields[OF len utf dist] fp m by simp
qed

theorem decode_utxo_dump_row_missing_field_witness:
  "decode_utxo_dump_row (map string_bytes [''count'', ''txid'', ''vout'', ''amount'', ''type'', ''address''])
      (map string_bytes [''1'', ''ab'', ''0'', ''5000'', ''p2wsh'', ''bc1q''])
   = Inl (MissingField ''height'')"
  by (rule decode_utxo_dump_row_missing_field[where m = "map_of (zip [''count'', ''txid'', ''vout'', ''amount'', ''type'', ''address'']
        (map string_bytes [''1'', ''ab'', ''0'', ''5000'', ''p2wsh'', ''bc1q'']))"])
     (simp_all add: string_bytes_def bytes_string_def char_of_def bit_0 utf8_lead_def fields_parse_def deserialize_int_def from_str_radix_def to_digit_def)

end
