(* ===== verification/Index.thy ===== *)
theory Index
  imports Dump
begin

text \<open>
  The index builder: the first loop of \<open>main\<close> (\<open>src/src/bin/main.rs\<close> lines 46 to
  67). The \<open>HashMap<String, Vec<UtxoDump>>\<close> is a map from txids to lists of
  records; each decoded row is appended to the list of its txid, a new list being made
  for a txid not yet present. The lemmas show that the result is the grouping of the
  dump by txid, each group in dump order (a refinement of the abstract
  \<open>group_by_txid\<close>), that no txid maps to an empty list, and that a decoding error
  aborts the build.
\<close>

type_synonym utxo_index = "string \<rightharpoonup> utxo_dump list"

section \<open>Operations\<close>

text \<open>
  One iteration of the loop (lines 54 to 66): look the txid up; if present, clone the
  list, push the record and insert the new list; otherwise insert a one-element list.
\<close>

definition index_insert :: "utxo_index \<Rightarrow> utxo_dump \<Rightarrow> utxo_index" where
  "index_insert utxo_dump utxo =
     (case utxo_dump (txid utxo) of
        Some utxos \<Rightarrow> utxo_dump(txid utxo \<mapsto> utxos @ [utxo])
      | None \<Rightarrow> utxo_dump(txid utxo \<mapsto> [utxo]))"

text \<open>
  The loop (lines 51 to 67): each row's result is unwrapped with \<open>?\<close>, so the first
  row that failed to decode ends \<open>main\<close> with its error.
\<close>

fun build_index :: "utxo_index \<Rightarrow> utxo_dump row_result list \<Rightarrow> csv_error + utxo_index" where
  "build_index m [] = Inr m"
| "build_index m (Inl e # rows) = Inl e"
| "build_index m (Inr utxo # rows) = build_index (index_insert m utxo) rows"

section \<open>Specification\<close>

text \<open>
  What the index promises: the records of a txid are those of the dump with that txid,
  in dump order, and a txid with no record is absent.
\<close>

definition group_by_txid :: "utxo_dump list \<Rightarrow> utxo_index" where
  "group_by_txid us k =
     (case filter (\<lambda>u. txid u = k) us of [] \<Rightarrow> None | vs \<Rightarrow> Some vs)"

definition index_wf :: "utxo_index \<Rightarrow> bool" where
  "index_wf m \<longleftrightarrow> (\<forall>k vs. m k = Some vs \<longrightarrow> vs \<noteq> [] \<and> (\<forall>u \<in> set vs. txid u = k))"

section \<open>Lemmas\<close>

lemma index_insert_lookup:
  "index_insert m u k =
     (if k = txid u then Some (case m k of None \<Rightarrow> [u] | Some vs \<Rightarrow> vs @ [u]) else m k)"
  by (simp add: index_insert_def split: option.split)

lemma foldl_index_insert:
  "foldl index_insert m us k =
     (case m k of
        None \<Rightarrow> (case filter (\<lambda>u. txid u = k) us of [] \<Rightarrow> None | vs \<Rightarrow> Some vs)
      | Some ws \<Rightarrow> Some (ws @ filter (\<lambda>u. txid u = k) us))"
proof (induction us arbitrary: m)
  case Nil
  then show ?case
    by (simp split: option.split)
next
  case (Cons u us)
  then show ?case
    by (auto simp add: index_insert_lookup split: option.split list.split)
qed

lemma foldl_index_insert_empty:
  "foldl index_insert Map.empty us = group_by_txid us"
  by (rule ext) (simp add: foldl_index_insert group_by_txid_def)

lemma build_index_foldl:
  "build_index m rows = map_sum id (foldl index_insert m) (sequence_results rows)"
  by (induction m rows rule: build_index.induct) (simp_all add: sum.map_comp comp_def)

lemma index_insert_wf:
  "index_wf m \<Longrightarrow> index_wf (index_insert m u)"
  by (auto simp add: index_wf_def index_insert_lookup split: option.splits if_splits)

lemma group_by_txid_Some:
  "group_by_txid us k = Some vs \<longleftrightarrow> vs = filter (\<lambda>u. txid u = k) us \<and> vs \<noteq> []"
  by (auto simp add: group_by_txid_def split: list.splits)

lemma group_by_txid_wf:
  "index_wf (group_by_txid us)"
  by (auto simp add: index_wf_def group_by_txid_Some)

lemma build_index_wf:
  "index_wf m \<Longrightarrow> build_index m rows = Inr m' \<Longrightarrow> index_wf m'"
  by (induction m rows rule: build_index.induct) (auto intro: index_insert_wf)

lemma index_wf_empty:
  "index_wf Map.empty"
  by (simp add: index_wf_def)

section \<open>Properties of the index\<close>

text \<open>
  C5 (refinement). Building the index from the rows of the UTXO dump gives the first
  row error if there is one, and otherwise the grouping of the decoded records by
  txid: every txid of the dump maps to exactly the records with that txid, in the
  order of the dump, duplicates kept, and every other txid is absent.
\<close>

theorem build_index_refines_grouping:
  "build_index Map.empty rows = map_sum id group_by_txid (sequence_results rows)"
  by (simp add: build_index_foldl foldl_index_insert_empty[abs_def] comp_def)

text \<open>
  C6 (invariant). A lookup in a built index is either absent or a non-empty list of
  records that all carry the looked-up txid; it is never present but empty.
\<close>

theorem build_index_lookup_nonempty:
  assumes "build_index Map.empty rows = Inr m" and "m k = Some vs"
  shows "vs \<noteq> [] \<and> (\<forall>u \<in> set vs. txid u = k)"
proof -
  have "index_wf m"
    using index_wf_empty assms(1) by (rule build_index_wf)
  with assms(2) show ?thesis
    by (simp add: index_wf_def)
qed

theorem build_index_lookup_nonempty_witness:
  "build_index Map.empty [Inr \<lparr>txid = ''abc'', vout = 2, height = 100, dump_amount = 5000\<rparr>]
     = Inr [''abc'' \<mapsto> [\<lparr>txid = ''abc'', vout = 2, height = 100, dump_amount = 5000\<rparr>]]
   \<and> [\<lparr>txid = ''abc'', vout = 2, height = 100, dump_amount = 5000\<rparr>] \<noteq> []"
proof -
  have b: "build_index Map.empty [Inr \<lparr>txid = ''abc'', vout = 2, height = 100, dump_amount = 5000\<rparr>]
     = Inr [''abc'' \<mapsto> [\<lparr>txid = ''abc'', vout = 2, height = 100, dump_amount = 5000\<rparr>]]"
    by (simp add: index_insert_def)
  have l: "[''abc'' \<mapsto> [\<lparr>txid = ''abc'', vout = 2, height = 100, dump_amount = 5000\<rparr>]] ''abc''
     = Some [\<lparr>txid = ''abc'', vout = 2, height = 100, dump_amount = 5000\<rparr>]"
    by simp
  show ?thesis
    using b build_index_lookup_nonempty[OF b l] by simp
qed

text \<open>
  C7 (error). A row of the UTXO dump that fails to decode aborts the build with that
  row's error, whatever rows come after it: no partial index is returned.
\<close>

theorem build_index_first_error:
  "build_index m (map Inr us @ Inl e # rest) = Inl e"
  by (induction us arbitrary: m) simp_all

end
