(* ===== verification/Pipeline.thy ===== *)
theory Pipeline
  imports Scid Index
begin

text \<open>
  The join-and-emit loop of \<open>main\<close> (\<open>src/src/bin/main.rs\<close> lines 69 to 146). Its
  state is the record \<open>pipeline_state\<close>: the vector \<open>scrape_results\<close>, the counters
  \<open>i\<close>, \<open>found\<close> and \<open>part\<close> (all \<open>i32\<close>, the type Rust gives an unannotated
  integer literal), the list of files written so far and the lines printed so far. One
  position row is \<open>process_row\<close>: \<open>count_row\<close> counts it (printing progress every
  10,000,000 rows), and each matched record is \<open>emit\<close>, which appends it and, in
  \<open>json\<close> mode, flushes a part every 10,000 records; \<open>finish\<close> is the final write
  and the final report.
  A written file is an \<open>artifact\<close>: its path and the list of records serialised into
  it (JSON text and bincode bytes are functions of that list).
\<close>

section \<open>Configuration, artifacts and state\<close>

text \<open>The three string arguments the loop reads: \<open>args[3]\<close>, \<open>args[4]\<close>, \<open>args[5]\<close>.\<close>

record config =
  output_type :: string
  minimized_type :: string
  file_location :: string

datatype artifact =
    JsonPart string "utxo list"
  | BinFile string "utxo list"

primrec artifact_path :: "artifact \<Rightarrow> string" where
  "artifact_path (JsonPart p rs) = p"
| "artifact_path (BinFile p rs) = p"

primrec artifact_records :: "artifact \<Rightarrow> utxo list" where
  "artifact_records (JsonPart p rs) = rs"
| "artifact_records (BinFile p rs) = rs"

record pipeline_state =
  scrape_results :: "utxo list"
  i :: i32
  found :: i32
  part :: i32
  written :: "artifact list"
  console :: "string list"

text \<open>
  Lines 73 to 77: \<open>scrape_results = vec![]\<close>, \<open>i = 0\<close>, \<open>found = 0\<close>, \<open>part = 1\<close>;
  no file written and no line printed by the loop yet.
\<close>

definition init_state :: pipeline_state where
  "init_state = \<lparr>scrape_results = [], i = 0, found = 0, part = 1, written = [], console = []\<rparr>"

text \<open>\<open>format!("{}/part-{}.json", file_location, part)\<close> (lines 115 and 133).\<close>

definition part_path :: "string \<Rightarrow> i32 \<Rightarrow> string" where
  "part_path loc p = loc @ ''/part-'' @ show_int (sint p) @ ''.json''"

section \<open>One matched record\<close>

text \<open>
  Lines 89 to 105: the enriched record. Height and output index come from the dump
  record, the position from the position row; txid and amount are kept only when the
  minimisation argument is exactly \<open>full\<close>.
\<close>

definition make_utxo :: "string \<Rightarrow> iterate_dump \<Rightarrow> utxo_dump \<Rightarrow> utxo" where
  "make_utxo minimized iterate u =
     (let txid' = (if minimized = ''full'' then Some (txid u) else None);
          amount' = (if minimized = ''full'' then Some (dump_amount u) else None)
      in \<lparr>block_height = height u, utxo_id = txid', block_index = tx_height iterate,
          transaction_index = vout u, amount = amount'\<rparr>)"

text \<open>
  Lines 107 to 123: push the record and count it; in \<open>json\<close> mode, when
  \<open>found % 10000 == 0\<close>, write \<open>scrape_results\<close> to the current part, advance
  \<open>part\<close> and empty \<open>scrape_results\<close>. The counters wrap on overflow, as in a release
  build.
\<close>

definition flush_due :: "config \<Rightarrow> i32 \<Rightarrow> bool" where
  "flush_due cfg n \<longleftrightarrow> output_type cfg = ''json'' \<and> sint n smod 10000 = 0"

definition emit :: "config \<Rightarrow> iterate_dump \<Rightarrow> pipeline_state \<Rightarrow> utxo_dump \<Rightarrow> pipeline_state" where
  "emit cfg iterate s u =
     (let s1 = s\<lparr>scrape_results := scrape_results s @ [make_utxo (minimized_type cfg) iterate u],
                 found := found s + 1\<rparr>
      in if flush_due cfg (found s1)
         then s1\<lparr>written := written s1 @ [JsonPart (part_path (file_location cfg) (part s1))
                                                    (scrape_results s1)],
                 console := console s1 @
                   [''Wrote 10000 transactions for part '' @ show_int (sint (part s1)) @ ''...''],
                 part := part s1 + 1, scrape_results := []\<rparr>
         else s1)"

section \<open>One position row and the loop\<close>

text \<open>
  Lines 80 to 127 for a decoded row: count it in \<open>i\<close> (only printed), look its txid
  up, and emit one record per record of the transaction, in the index's order; a miss
  leaves the state as it is (\<open>None => continue\<close>).
\<close>

text \<open>Lines 81 to 84: \<open>i += 1\<close>, and a progress line every 10,000,000 rows.\<close>

definition count_row :: "pipeline_state \<Rightarrow> pipeline_state" where
  "count_row s =
     (let s1 = s\<lparr>i := i s + 1\<rparr>
      in if sint (i s1) smod 10000000 = 0
         then s1\<lparr>console := console s1 @ [''Analyzed '' @ show_int (sint (i s1)) @ '' utxos...'']\<rparr>
         else s1)"

definition process_row :: "config \<Rightarrow> utxo_index \<Rightarrow> pipeline_state \<Rightarrow> iterate_dump \<Rightarrow> pipeline_state" where
  "process_row cfg utxo_dump s iterate =
     (let s1 = count_row s
      in case utxo_dump (iterate_txid iterate) of
           Some utxos \<Rightarrow> foldl (emit cfg iterate) s1 utxos
         | None \<Rightarrow> s1)"

text \<open>
  The loop of lines 79 to 128; \<open>result?\<close> ends the run at the first row error. The
  state at that point is kept with the error: the parts already flushed stay on disk.
\<close>

fun run_rows ::
  "config \<Rightarrow> utxo_index \<Rightarrow> pipeline_state \<Rightarrow> iterate_dump row_result list
     \<Rightarrow> (csv_error \<times> pipeline_state) + pipeline_state"
where
  "run_rows cfg idx s [] = Inr s"
| "run_rows cfg idx s (Inl e # rows) = Inl (e, s)"
| "run_rows cfg idx s (Inr iterate # rows) = run_rows cfg idx (process_row cfg idx s iterate) rows"

section \<open>The final write\<close>

text \<open>
  Lines 130 to 140: in \<open>json\<close> mode the remaining records, possibly none, go to the
  current part; in \<open>bin\<close> mode all of \<open>scrape_results\<close> goes to
  \<open>p2wsh-utxo.bin\<close>; any other output type writes nothing. Lines 142 to 147, in
  every mode: the size of \<open>scrape_results\<close> with the current part, and the count
  \<open>found\<close>.
\<close>

definition final_report :: "pipeline_state \<Rightarrow> string list" where
  "final_report s =
     [''Wrote '' @ show_nat (length (scrape_results s)) @ '' transactions for part ''
        @ show_int (sint (part s)) @ ''...'',
      ''Wrote '' @ show_int (sint (found s)) @ '' total transactions'']"

definition finish :: "config \<Rightarrow> pipeline_state \<Rightarrow> pipeline_state" where
  "finish cfg s =
     (let s1 =
        (if output_type cfg = ''json''
         then s\<lparr>written := written s @ [JsonPart (part_path (file_location cfg) (part s)) (scrape_results s)]\<rparr>
         else if output_type cfg = ''bin''
         then s\<lparr>written := written s @ [BinFile (file_location cfg @ ''/p2wsh-utxo.bin'') (scrape_results s)]\<rparr>
         else s)
      in s1\<lparr>console := console s1 @ final_report s1\<rparr>)"

section \<open>Specification\<close>

text \<open>
  The join the loop computes: for each position row in order, one enriched record per
  record of its transaction in the index, nothing for a txid not in the index.
\<close>

definition join :: "string \<Rightarrow> utxo_index \<Rightarrow> iterate_dump list \<Rightarrow> utxo list" where
  "join minimized idx its =
     concat (map (\<lambda>it. case idx (iterate_txid it) of
                          None \<Rightarrow> []
                        | Some us \<Rightarrow> map (make_utxo minimized it) us) its)"

text \<open>
  The JSON output the spec describes for a list of records: parts numbered from 1, each
  holding the next 10,000 records, and a last part with the remainder, which is empty
  when the number of records is a multiple of 10,000.
\<close>

definition json_part :: "string \<Rightarrow> utxo list \<Rightarrow> nat \<Rightarrow> artifact" where
  "json_part loc rs j =
     JsonPart (loc @ ''/part-'' @ show_nat (Suc j) @ ''.json'') (take 10000 (drop (j * 10000) rs))"

definition json_parts :: "string \<Rightarrow> utxo list \<Rightarrow> artifact list" where
  "json_parts loc rs = map (json_part loc rs) [0..<length rs div 10000 + 1]"

text \<open>Every record emitted so far: those in written files, then those still held.\<close>

definition all_records :: "pipeline_state \<Rightarrow> utxo list" where
  "all_records s = concat (map artifact_records (written s)) @ scrape_results s"

text \<open>
  The invariant of the loop in \<open>json\<close> mode, for the list \<open>rs\<close> of records emitted
  so far (fewer than \<open>2 ^ 31\<close>, so no counter wraps): \<open>found\<close> counts them,
  \<open>part\<close> is one more than the number of full parts, the written files are the full
  parts of \<open>rs\<close> and \<open>scrape_results\<close> holds the rest.
\<close>

definition json_inv :: "config \<Rightarrow> utxo list \<Rightarrow> pipeline_state \<Rightarrow> bool" where
  "json_inv cfg rs s \<longleftrightarrow>
     length rs < 2 ^ 31
     \<and> found s = word_of_nat (length rs)
     \<and> part s = word_of_nat (length rs div 10000 + 1)
     \<and> written s = map (json_part (file_location cfg) rs) [0..<length rs div 10000]
     \<and> scrape_results s = drop (length rs div 10000 * 10000) rs"

text \<open>The whole loop and final write, as the list of files written or the first row error.\<close>

definition emit_all :: "config \<Rightarrow> utxo_index \<Rightarrow> iterate_dump row_result list \<Rightarrow> csv_error + artifact list" where
  "emit_all cfg idx rows = map_sum fst (\<lambda>s. written (finish cfg s)) (run_rows cfg idx init_state rows)"

section \<open>Lemmas: what each step emits\<close>

lemma init_state_fields [simp]:
  "scrape_results init_state = []" "written init_state = []" "found init_state = 0"
  "part init_state = 1" "all_records init_state = []"
  by (simp_all add: init_state_def all_records_def)

lemma count_row_fields [simp]:
  "scrape_results (count_row s) = scrape_results s" "written (count_row s) = written s"
  "found (count_row s) = found s" "part (count_row s) = part s"
  "all_records (count_row s) = all_records s"
  by (simp_all add: count_row_def all_records_def Let_def)

lemma json_inv_count_row [simp]:
  "json_inv cfg rs (count_row s) = json_inv cfg rs s"
  by (simp add: json_inv_def)

text \<open>The files the final write adds; the lines it prints are not files.\<close>

lemma written_finish:
  "written (finish cfg s) =
     written s @ (if output_type cfg = ''json''
                  then [JsonPart (part_path (file_location cfg) (part s)) (scrape_results s)]
                  else if output_type cfg = ''bin''
                  then [BinFile (file_location cfg @ ''/p2wsh-utxo.bin'') (scrape_results s)]
                  else [])"
  by (simp add: finish_def Let_def)

lemma all_records_emit:
  "all_records (emit cfg it s u) = all_records s @ [make_utxo (minimized_type cfg) it u]"
  by (simp add: emit_def all_records_def Let_def)

lemma all_records_foldl_emit:
  "all_records (foldl (emit cfg it) s us) = all_records s @ map (make_utxo (minimized_type cfg) it) us"
  by (induction us arbitrary: s) (simp_all add: all_records_emit)

lemma all_records_process_row:
  "all_records (process_row cfg idx s it) =
     all_records s @ (case idx (iterate_txid it) of
                        None \<Rightarrow> [] | Some us \<Rightarrow> map (make_utxo (minimized_type cfg) it) us)"
  by (simp add: process_row_def all_records_foldl_emit Let_def split: option.split)

lemma all_records_foldl_process_row:
  "all_records (foldl (process_row cfg idx) s its) = all_records s @ join (minimized_type cfg) idx its"
  by (induction its arbitrary: s) (simp_all add: all_records_process_row join_def)

lemma run_rows_foldl:
  "map_sum fst id (run_rows cfg idx s rows) = map_sum id (foldl (process_row cfg idx) s) (sequence_results rows)"
  by (induction cfg idx s rows rule: run_rows.induct) (simp_all add: sum.map_comp comp_def)

lemma run_rows_append:
  "run_rows cfg idx s (map Inr its @ rows) = run_rows cfg idx (foldl (process_row cfg idx) s its) rows"
  by (induction its arbitrary: s) simp_all

lemma emit_all_foldl:
  "emit_all cfg idx rows =
     map_sum id (\<lambda>its. written (finish cfg (foldl (process_row cfg idx) init_state its)))
       (sequence_results rows)"
  using run_rows_foldl[of cfg idx init_state rows]
  by (cases "run_rows cfg idx init_state rows"; cases "sequence_results rows") (auto simp: emit_all_def)

text \<open>Outside \<open>json\<close> mode no step writes a file.\<close>

lemma written_emit_not_json:
  "output_type cfg \<noteq> ''json'' \<Longrightarrow> written (emit cfg it s u) = written s"
  by (simp add: emit_def flush_due_def Let_def)

lemma written_foldl_process_row_not_json:
  "output_type cfg \<noteq> ''json'' \<Longrightarrow> written (foldl (process_row cfg idx) s its) = written s"
proof (induction its arbitrary: s)
  case Nil
  then show ?case by simp
next
  case (Cons it its)
  have "written (foldl (emit cfg it) s' us) = written s'" for s' us
    using Cons.prems by (induction us arbitrary: s') (simp_all add: written_emit_not_json)
  then have "written (process_row cfg idx s it) = written s"
    by (simp add: process_row_def Let_def split: option.split)
  with Cons show ?case by simp
qed

section \<open>Lemmas: batching in \<open>json\<close> mode\<close>

lemma json_part_append:
  "Suc j * 10000 \<le> length rs \<Longrightarrow> json_part loc (rs @ ys) j = json_part loc rs j"
  by (simp add: json_part_def)

lemma map_json_part_append:
  "k * 10000 \<le> length rs \<Longrightarrow>
     map (json_part loc (rs @ ys)) [0..<k] = map (json_part loc rs) [0..<k]"
proof (rule map_cong)
  fix j assume "k * 10000 \<le> length rs" "j \<in> set [0..<k]"
  then have j: "Suc j \<le> k" and k: "k * 10000 \<le> length rs"
    by simp_all
  from j have "Suc j * 10000 \<le> k * 10000"
    by (rule mult_le_mono1)
  with k have "Suc j * 10000 \<le> length rs"
    by (rule order_trans[rotated])
  then show "json_part loc (rs @ ys) j = json_part loc rs j"
    by (rule json_part_append)
qed simp

lemma part_path_of_nat:
  "n < 2 ^ 31 \<Longrightarrow> part_path loc (word_of_nat n) = loc @ ''/part-'' @ show_nat n @ ''.json''"
  by (simp add: part_path_def sint_of_nat_i32)

lemma flush_due_of_nat:
  "n < 2 ^ 31 \<Longrightarrow> flush_due cfg (word_of_nat n) \<longleftrightarrow> output_type cfg = ''json'' \<and> 10000 dvd n"
proof -
  have "(10000::int) dvd int n \<longleftrightarrow> 10000 dvd n"
    by (metis int_dvd_int_iff of_nat_numeral)
  moreover assume "n < 2 ^ 31"
  ultimately show ?thesis
    by (simp add: flush_due_def sint_of_nat_i32 smod_eq_0_iff_dvd)
qed

lemma emit_json_inv:
  assumes json: "output_type cfg = ''json''"
    and inv: "json_inv cfg rs s"
    and bound: "length rs + 1 < 2 ^ 31"
  shows "json_inv cfg (rs @ [make_utxo (minimized_type cfg) it u]) (emit cfg it s u)"
proof -
  let ?r = "make_utxo (minimized_type cfg) it u"
  let ?n = "length rs" and ?k = "length rs div 10000" and ?loc = "file_location cfg"
  let ?s1 = "s\<lparr>scrape_results := scrape_results s @ [?r], found := found s + 1\<rparr>"
  have found1: "found ?s1 = word_of_nat (Suc ?n)"
    using inv by (simp add: json_inv_def)
  have emit_eq: "emit cfg it s u =
     (if flush_due cfg (found ?s1)
      then ?s1\<lparr>written := written ?s1 @ [JsonPart (part_path ?loc (part ?s1)) (scrape_results ?s1)],
               console := console ?s1 @
                 [''Wrote 10000 transactions for part '' @ show_int (sint (part ?s1)) @ ''...''],
               part := part ?s1 + 1, scrape_results := []\<rparr>
      else ?s1)"
    by (simp add: emit_def Let_def)
  have k_le: "?k * 10000 \<le> ?n"
    by simp
  have written_rs: "written s = map (json_part ?loc (rs @ [?r])) [0..<?k]"
    using inv k_le by (simp add: json_inv_def map_json_part_append)
  show ?thesis
  proof (cases "10000 dvd Suc ?n")
    case True
    then have div: "Suc ?n div 10000 = Suc ?k"
      by (simp add: div_Suc dvd_eq_mod_eq_0)
    from True have "?n mod 10000 = 9999"
      by (simp add: dvd_eq_mod_eq_0 mod_Suc split: if_splits)
    then have len: "length (drop (?k * 10000) rs) = 9999"
      by (simp add: minus_div_mult_eq_mod)
    have flush: "flush_due cfg (found ?s1)"
      unfolding found1 using True bound json flush_due_of_nat[of "Suc ?n" cfg] by simp
    have part_s: "part s = word_of_nat (Suc ?k)"
      using inv by (simp add: json_inv_def)
    have "Suc ?k < 2 ^ 31"
      using bound by linarith
    then have pp: "part_path ?loc (part s) = ?loc @ ''/part-'' @ show_nat (Suc ?k) @ ''.json''"
      unfolding part_s by (rule part_path_of_nat)
    have last_part: "JsonPart (part_path ?loc (part s)) (scrape_results s @ [?r])
                       = json_part ?loc (rs @ [?r]) ?k"
    proof -
      have scr: "scrape_results s = drop (?k * 10000) rs"
        using inv by (simp add: json_inv_def)
      show ?thesis
        using len k_le by (simp add: json_part_def pp scr)
    qed
    have "?k < 2 ^ 31" using bound by linarith
    show ?thesis
      using inv bound flush div written_rs last_part
      by (simp add: emit_eq json_inv_def)
  next
    case False
    then have div: "Suc ?n div 10000 = ?k"
      by (simp add: div_Suc dvd_eq_mod_eq_0)
    have noflush: "\<not> flush_due cfg (found ?s1)"
      unfolding found1 using False bound flush_due_of_nat[of "Suc ?n" cfg] by simp
    show ?thesis
      using inv bound noflush div written_rs k_le
      by (simp add: emit_eq json_inv_def)
  qed
qed
lemma foldl_emit_json_inv:
  "output_type cfg = ''json'' \<Longrightarrow> json_inv cfg rs s \<Longrightarrow> length rs + length us < 2 ^ 31 \<Longrightarrow>
     json_inv cfg (rs @ map (make_utxo (minimized_type cfg) it) us) (foldl (emit cfg it) s us)"
proof (induction us arbitrary: rs s)
  case Nil
  then show ?case by simp
next
  case (Cons u us)
  have "json_inv cfg (rs @ [make_utxo (minimized_type cfg) it u]) (emit cfg it s u)"
    using Cons.prems by (intro emit_json_inv) simp_all
  with Cons.prems Cons.IH[of "rs @ [make_utxo (minimized_type cfg) it u]" "emit cfg it s u"]
  show ?case by simp
qed

lemma json_inv_i_update [simp]:
  "json_inv cfg rs (s\<lparr>i := n\<rparr>) = json_inv cfg rs s"
  by (simp add: json_inv_def)

lemma json_inv_console_update [simp]:
  "json_inv cfg rs (s\<lparr>console := c\<rparr>) = json_inv cfg rs s"
  by (simp add: json_inv_def)

lemma foldl_process_row_json_inv:
  "output_type cfg = ''json'' \<Longrightarrow> json_inv cfg rs s \<Longrightarrow>
     length rs + length (join (minimized_type cfg) idx its) < 2 ^ 31 \<Longrightarrow>
     json_inv cfg (rs @ join (minimized_type cfg) idx its) (foldl (process_row cfg idx) s its)"
proof (induction its arbitrary: rs s)
  case Nil
  then show ?case by (simp add: join_def)
next
  case (Cons it its)
  let ?us = "case idx (iterate_txid it) of None \<Rightarrow> [] | Some us \<Rightarrow> us"
  have join_cons: "join (minimized_type cfg) idx (it # its)
      = map (make_utxo (minimized_type cfg) it) ?us @ join (minimized_type cfg) idx its"
    by (simp add: join_def split: option.split)
  have pr: "process_row cfg idx s it = foldl (emit cfg it) (count_row s) ?us"
    by (simp add: process_row_def split: option.split)
  have "json_inv cfg (rs @ map (make_utxo (minimized_type cfg) it) ?us) (process_row cfg idx s it)"
    unfolding pr using Cons.prems by (intro foldl_emit_json_inv) (simp_all add: join_cons)
  with Cons.prems Cons.IH[of "rs @ map (make_utxo (minimized_type cfg) it) ?us" "process_row cfg idx s it"]
  show ?case by (simp add: join_cons)
qed

lemma json_inv_init:
  "json_inv cfg [] init_state"
  by (simp add: json_inv_def init_state_def)

lemma finish_json_inv:
  assumes "output_type cfg = ''json''" and "json_inv cfg rs s"
  shows "written (finish cfg s) = map (json_part (file_location cfg) rs) [0..<length rs div 10000 + 1]"
proof -
  let ?k = "length rs div 10000" and ?loc = "file_location cfg"
  have part_s: "part s = word_of_nat (Suc ?k)"
    using assms(2) by (simp add: json_inv_def)
  have "Suc ?k < 2 ^ 31"
    using assms(2) by (simp add: json_inv_def) linarith
  then have pp: "part_path ?loc (part s) = ?loc @ ''/part-'' @ show_nat (Suc ?k) @ ''.json''"
    unfolding part_s by (rule part_path_of_nat)
  have scr: "scrape_results s = drop (?k * 10000) rs"
    using assms(2) by (simp add: json_inv_def)
  have "length (drop (?k * 10000) rs) < 10000"
    by (simp add: minus_div_mult_eq_mod)
  then have last: "JsonPart (part_path ?loc (part s)) (scrape_results s) = json_part ?loc rs ?k"
    by (simp add: json_part_def pp scr)
  have "written s = map (json_part ?loc rs) [0..<?k]"
    using assms(2) by (simp add: json_inv_def)
  with assms(1) last show ?thesis
    by (simp add: written_finish)
qed
lemma written_finish_json:
  assumes "output_type cfg = ''json''"
    and "length (join (minimized_type cfg) idx its) < 2 ^ 31"
  shows "written (finish cfg (foldl (process_row cfg idx) init_state its))
           = json_parts (file_location cfg) (join (minimized_type cfg) idx its)"
proof -
  have "json_inv cfg ([] @ join (minimized_type cfg) idx its) (foldl (process_row cfg idx) init_state its)"
    using assms by (intro foldl_process_row_json_inv json_inv_init) simp_all
  with assms(1) show ?thesis
    by (simp add: finish_json_inv json_parts_def)
qed

lemma json_parts_sizes:
  "map (length \<circ> artifact_records) (json_parts loc rs)
     = replicate (length rs div 10000) 10000 @ [length rs mod 10000]"
proof -
  let ?k = "length rs div 10000"
  have full: "length (take 10000 (drop (j * 10000) rs)) = 10000" if "j < ?k" for j
  proof -
    from that have "Suc j * 10000 \<le> ?k * 10000"
      by (intro mult_le_mono1) simp
    also have "\<dots> \<le> length rs"
      by simp
    finally show ?thesis
      by simp
  qed
  have "map (length \<circ> artifact_records) (map (json_part loc rs) [0..<?k]) = replicate ?k 10000"
    by (rule nth_equalityI) (simp_all add: json_part_def full)
  moreover have "length (take 10000 (drop (?k * 10000) rs)) = length rs mod 10000"
    by (simp add: minus_div_mult_eq_mod)
  ultimately show ?thesis
    by (simp add: json_parts_def json_part_def)
qed

lemma scrape_results_foldl_not_json:
  assumes "output_type cfg \<noteq> ''json''"
  shows "scrape_results (foldl (process_row cfg idx) init_state its) = join (minimized_type cfg) idx its"
proof -
  have "written (foldl (process_row cfg idx) init_state its) = []"
    using assms by (simp add: written_foldl_process_row_not_json)
  moreover have "all_records (foldl (process_row cfg idx) init_state its) = join (minimized_type cfg) idx its"
    by (simp add: all_records_foldl_process_row)
  ultimately show ?thesis
    by (simp add: all_records_def)
qed

lemma records_written_finish_subset:
  "set (concat (map artifact_records (written (finish cfg s)))) \<subseteq> set (all_records s)"
  by (auto simp add: written_finish all_records_def)

lemma join_records:
  "r \<in> set (join minimized idx its) \<Longrightarrow>
     \<exists>it vs u. idx (iterate_txid it) = Some vs \<and> u \<in> set vs \<and> r = make_utxo minimized it u"
  by (auto simp add: join_def split: option.splits) (metis)

lemma emit_all_bin_file:
  "output_type cfg = ''bin'' \<Longrightarrow>
     emit_all cfg idx (map Inr its)
       = Inr [BinFile (file_location cfg @ ''/p2wsh-utxo.bin'') (join (minimized_type cfg) idx its)]"
  by (simp add: emit_all_foldl written_finish written_foldl_process_row_not_json
      scrape_results_foldl_not_json)

section \<open>Properties of the pipeline\<close>

text \<open>
  C8 (refinement). In \<open>json\<close> mode, when every position row decodes and fewer than
  \<open>2 ^ 31\<close> records match, the files written are exactly the specified parts of the
  join: \<open>part-1.json\<close>, \<open>part-2.json\<close>, ... in the output directory, each holding
  the next 10,000 joined records in order, the last one the remainder.
\<close>

theorem emit_all_json:
  assumes "output_type cfg = ''json''"
    and "length (join (minimized_type cfg) idx its) < 2 ^ 31"
  shows "emit_all cfg idx (map Inr its)
           = Inr (json_parts (file_location cfg) (join (minimized_type cfg) idx its))"
  using assms by (simp add: emit_all_foldl written_finish_json)

theorem emit_all_json_witness:
  "output_type \<lparr>output_type = ''json'', minimized_type = ''full'', file_location = ''out''\<rparr> = ''json''
   \<and> length (join ''full'' [''abc'' \<mapsto> [\<lparr>txid = ''abc'', vout = 2, height = 100, dump_amount = 5000\<rparr>]]
               [\<lparr>iterate_txid = ''abc'', tx_height = 7\<rparr>]) < 2 ^ 31
   \<and> emit_all \<lparr>output_type = ''json'', minimized_type = ''full'', file_location = ''out''\<rparr>
         [''abc'' \<mapsto> [\<lparr>txid = ''abc'', vout = 2, height = 100, dump_amount = 5000\<rparr>]]
         (map Inr [\<lparr>iterate_txid = ''abc'', tx_height = 7\<rparr>])
     = Inr [JsonPart ''out/part-1.json''
              [\<lparr>block_height = 100, utxo_id = Some ''abc'', block_index = 7,
                 transaction_index = 2, amount = Some 5000\<rparr>]]"
proof -
  let ?cfg = "\<lparr>output_type = ''json'', minimized_type = ''full'', file_location = ''out''\<rparr>"
  let ?idx = "[''abc'' \<mapsto> [\<lparr>txid = ''abc'', vout = 2, height = 100, dump_amount = 5000\<rparr>]]"
  let ?its = "[\<lparr>iterate_txid = ''abc'', tx_height = 7\<rparr>]"
  have j: "join ''full'' ?idx ?its = [\<lparr>block_height = 100, utxo_id = Some ''abc'', block_index = 7,
                 transaction_index = 2, amount = Some 5000\<rparr>]"
    by (simp add: join_def make_utxo_def)
  have h1: "output_type ?cfg = ''json''" by simp
  have h2: "length (join (minimized_type ?cfg) ?idx ?its) < 2 ^ 31" by (simp add: j)
  show ?thesis
    using emit_all_json[OF h1 h2] j
    by (simp add: json_parts_def json_part_def show_nat.simps digit_char_def)
qed

text \<open>
  C9 (invariant). Under the same conditions, every part but the last holds exactly
  10,000 records and the last holds the remainder: 10,000 matches give a full
  \<open>part-1\<close> and an empty \<open>part-2\<close>, 10,001 matches give \<open>part-2\<close> with one record.
\<close>

theorem emit_all_json_part_sizes:
  assumes "output_type cfg = ''json''"
    and "length (join (minimized_type cfg) idx its) < 2 ^ 31"
    and "emit_all cfg idx (map Inr its) = Inr arts"
  shows "map (length \<circ> artifact_records) arts
           = replicate (length (join (minimized_type cfg) idx its) div 10000) 10000
             @ [length (join (minimized_type cfg) idx its) mod 10000]"
proof -
  have "arts = json_parts (file_location cfg) (join (minimized_type cfg) idx its)"
    using assms by (simp add: emit_all_foldl written_finish_json)
  then show ?thesis
    by (simp add: json_parts_sizes)
qed

theorem emit_all_json_part_sizes_witness:
  "output_type \<lparr>output_type = ''json'', minimized_type = ''min'', file_location = ''o''\<rparr> = ''json''
   \<and> length (join ''min'' [''t'' \<mapsto> [\<lparr>txid = ''t'', vout = 0, height = 1, dump_amount = 1\<rparr>]]
               [\<lparr>iterate_txid = ''t'', tx_height = 3\<rparr>]) < 2 ^ 31
   \<and> emit_all \<lparr>output_type = ''json'', minimized_type = ''min'', file_location = ''o''\<rparr>
         [''t'' \<mapsto> [\<lparr>txid = ''t'', vout = 0, height = 1, dump_amount = 1\<rparr>]]
         (map Inr [\<lparr>iterate_txid = ''t'', tx_height = 3\<rparr>])
     = Inr [JsonPart ''o/part-1.json''
              [\<lparr>block_height = 1, utxo_id = None, block_index = 3,
                 transaction_index = 0, amount = None\<rparr>]]
   \<and> map (length \<circ> artifact_records)
       [JsonPart ''o/part-1.json''
          [\<lparr>block_height = 1, utxo_id = None, block_index = 3,
             transaction_index = 0, amount = None\<rparr>]] = [] @ [1]"
proof -
  let ?cfg = "\<lparr>output_type = ''json'', minimized_type = ''min'', file_location = ''o''\<rparr>"
  let ?idx = "[''t'' \<mapsto> [\<lparr>txid = ''t'', vout = 0, height = 1, dump_amount = 1\<rparr>]]"
  let ?its = "[\<lparr>iterate_txid = ''t'', tx_height = 3\<rparr>]"
  let ?arts = "[JsonPart ''o/part-1.json''
              [\<lparr>block_height = 1, utxo_id = None, block_index = 3,
                 transaction_index = 0, amount = None\<rparr>]]"
  have j: "join ''min'' ?idx ?its = [\<lparr>block_height = 1, utxo_id = None, block_index = 3,
                 transaction_index = 0, amount = None\<rparr>]"
    by (simp add: join_def make_utxo_def)
  have h1: "output_type ?cfg = ''json''" by simp
  have h2: "length (join (minimized_type ?cfg) ?idx ?its) < 2 ^ 31" by (simp add: j)
  have h3: "emit_all ?cfg ?idx (map Inr ?its) = Inr ?arts"
    using written_finish_json[OF h1 h2] j
    by (simp add: emit_all_foldl json_parts_def json_part_def show_nat.simps digit_char_def)
  show ?thesis
    using emit_all_json_part_sizes[OF h1 h2 h3] h2 h3 j by simp
qed

text \<open>
  C10 (functional). In \<open>bin\<close> mode the batch bound plays no part: whatever the number
  of matches, exactly one file, \<open>p2wsh-utxo.bin\<close> in the output directory, is written,
  and it holds the whole join in order.
\<close>

theorem emit_all_bin:
  "output_type cfg = ''bin'' \<Longrightarrow>
     emit_all cfg idx (map Inr its)
       = Inr [BinFile (file_location cfg @ ''/p2wsh-utxo.bin'') (join (minimized_type cfg) idx its)]"
  by (rule emit_all_bin_file)

theorem emit_all_bin_witness:
  "output_type \<lparr>output_type = ''bin'', minimized_type = ''full'', file_location = ''d''\<rparr> = ''bin''
   \<and> emit_all \<lparr>output_type = ''bin'', minimized_type = ''full'', file_location = ''d''\<rparr>
         Map.empty (map Inr [\<lparr>iterate_txid = ''t'', tx_height = 3\<rparr>])
     = Inr [BinFile ''d/p2wsh-utxo.bin'' []]"
proof -
  have h: "output_type \<lparr>output_type = ''bin'', minimized_type = ''full'', file_location = ''d''\<rparr> = ''bin''"
    by simp
  show ?thesis
    using emit_all_bin[OF h, of Map.empty "[\<lparr>iterate_txid = ''t'', tx_height = 3\<rparr>]"]
    by (simp add: join_def)
qed

text \<open>
  C11 (functional). An output type other than \<open>json\<close> and \<open>bin\<close> is not rejected: the
  loop runs over every row and no file at all is written.
\<close>

theorem emit_all_other_writes_nothing:
  "output_type cfg \<noteq> ''json'' \<Longrightarrow> output_type cfg \<noteq> ''bin'' \<Longrightarrow>
     emit_all cfg idx (map Inr its) = Inr []"
  by (simp add: emit_all_foldl written_finish written_foldl_process_row_not_json)

theorem emit_all_other_writes_nothing_witness:
  "output_type \<lparr>output_type = ''csv'', minimized_type = ''full'', file_location = ''d''\<rparr> \<noteq> ''json''
   \<and> output_type \<lparr>output_type = ''csv'', minimized_type = ''full'', file_location = ''d''\<rparr> \<noteq> ''bin''
   \<and> emit_all \<lparr>output_type = ''csv'', minimized_type = ''full'', file_location = ''d''\<rparr>
         [''t'' \<mapsto> [\<lparr>txid = ''t'', vout = 0, height = 1, dump_amount = 1\<rparr>]]
         (map Inr [\<lparr>iterate_txid = ''t'', tx_height = 3\<rparr>]) = Inr []"
proof -
  have h1: "output_type \<lparr>output_type = ''csv'', minimized_type = ''full'', file_location = ''d''\<rparr> \<noteq> ''json''"
    by simp
  have h2: "output_type \<lparr>output_type = ''csv'', minimized_type = ''full'', file_location = ''d''\<rparr> \<noteq> ''bin''"
    by simp
  show ?thesis
    using h1 h2 emit_all_other_writes_nothing[OF h1 h2,
        of "[''t'' \<mapsto> [\<lparr>txid = ''t'', vout = 0, height = 1, dump_amount = 1\<rparr>]]"
        "[\<lparr>iterate_txid = ''t'', tx_height = 3\<rparr>]"]
    by simp
qed

text \<open>
  C12 (error). A position row that fails to decode ends the run with its error; the
  rows before it have been processed but no final file is written.
\<close>

theorem emit_all_row_error:
  "emit_all cfg idx (map Inr its @ Inl e # rest) = Inl e"
proof -
  have "sequence_results (map Inr its @ Inl e # rest) = Inl e"
    by (induction its) simp_all
  then show ?thesis
    by (simp add: emit_all_foldl)
qed

text \<open>
  C13 (functional). Every record written in any mode carries both its txid and its
  amount when the minimisation argument is \<open>full\<close>, and neither otherwise.
\<close>

theorem emit_all_redaction:
  assumes "emit_all cfg idx (map Inr its) = Inr arts"
    and "a \<in> set arts" and "r \<in> set (artifact_records a)"
  shows "if minimized_type cfg = ''full'' then utxo_id r \<noteq> None \<and> amount r \<noteq> None
         else utxo_id r = None \<and> amount r = None"
proof -
  let ?s = "foldl (process_row cfg idx) init_state its"
  have "arts = written (finish cfg ?s)"
    using assms(1) by (simp add: emit_all_foldl)
  with assms(2,3) have "r \<in> set (all_records ?s)"
    using records_written_finish_subset[of cfg ?s] by auto
  then have "r \<in> set (join (minimized_type cfg) idx its)"
    by (simp add: all_records_foldl_process_row)
  then obtain it vs u where "r = make_utxo (minimized_type cfg) it u"
    using join_records by blast
  then show ?thesis
    by (simp add: make_utxo_def)
qed

theorem emit_all_redaction_witness:
  "emit_all \<lparr>output_type = ''bin'', minimized_type = ''min'', file_location = ''d''\<rparr>
      [''t'' \<mapsto> [\<lparr>txid = ''t'', vout = 0, height = 1, dump_amount = 1\<rparr>]]
      (map Inr [\<lparr>iterate_txid = ''t'', tx_height = 3\<rparr>])
     = Inr [BinFile ''d/p2wsh-utxo.bin''
              [\<lparr>block_height = 1, utxo_id = None, block_index = 3, transaction_index = 0, amount = None\<rparr>]]
   \<and> utxo_id \<lparr>block_height = (1::u32), utxo_id = None, block_index = (3::u16),
        transaction_index = (0::u16), amount = (None :: usize option)\<rparr> = None"
proof -
  let ?cfg = "\<lparr>output_type = ''bin'', minimized_type = ''min'', file_location = ''d''\<rparr>"
  let ?r = "\<lparr>block_height = (1::u32), utxo_id = (None :: string option), block_index = (3::u16),
        transaction_index = (0::u16), amount = (None :: usize option)\<rparr>"
  let ?a = "BinFile ''d/p2wsh-utxo.bin'' [?r]"
  have e: "emit_all ?cfg [''t'' \<mapsto> [\<lparr>txid = ''t'', vout = 0, height = 1, dump_amount = 1\<rparr>]]
      (map Inr [\<lparr>iterate_txid = ''t'', tx_height = 3\<rparr>]) = Inr [?a]"
    by (simp add: emit_all_def init_state_def process_row_def count_row_def emit_def flush_due_def
        written_finish make_utxo_def Let_def smod_eq_0_iff_dvd)
  have "?a \<in> set [?a]" by simp
  moreover have "?r \<in> set (artifact_records ?a)" by simp
  ultimately show ?thesis
    using emit_all_redaction[OF e] e by simp
qed

end
