(* ===== verification/Program.thy ===== *)
theory Program
  imports Pipeline
begin

text \<open>
  The whole of \<open>main\<close> in \<open>src/src/bin/main.rs\<close>: the five command-line arguments,
  opening the two dumps, building the index from the UTXO dump, the join-and-emit loop
  over the position dump and the final write. The outcome of a run is the value
  \<open>main\<close> returns (or the panic that ends it) together with the files written, which
  stay on disk whatever the outcome, and the lines printed to standard output.
\<close>

section \<open>Definitions\<close>

text \<open>
  How a run ends when it does not return \<open>Ok(())\<close>: a panic from indexing
  \<open>args\<close> (\<open>args[1]\<close> to \<open>args[5]\<close>, lines 40 to 44: the length and the first index
  out of bounds), or an error of the \<open>csv\<close> reader propagated by \<open>?\<close>.
\<close>

datatype main_error = IndexPanic nat nat | CsvError csv_error

text \<open>The input files, by path, as the CSV reader splits them.\<close>

type_synonym file_system = "string \<rightharpoonup> csv_rows"

text \<open>\<open>Reader::from_path\<close> and \<open>ReaderBuilder::from_path\<close>: a path that cannot be opened is an I/O error.\<close>

definition open_csv :: "file_system \<Rightarrow> string \<Rightarrow> csv_error + csv_rows" where
  "open_csv fs path = (case fs path of None \<Rightarrow> Inl (Io path) | Some rows \<Rightarrow> Inr rows)"

definition main_config :: "string list \<Rightarrow> config" where
  "main_config args = \<lparr>output_type = args ! 3, minimized_type = args ! 4, file_location = args ! 5\<rparr>"

text \<open>
  What a run leaves behind: how \<open>main\<close> ends, the files it wrote (they stay on disk
  whatever the end) and the lines it printed to standard output, in order.
\<close>

record run_outcome =
  exit_result :: "main_error + unit"
  files :: "artifact list"
  stdout :: "string list"

definition main_run :: "string list \<Rightarrow> file_system \<Rightarrow> run_outcome" where
  "main_run args fs =
     (if length args \<le> 5
      then \<lparr>exit_result = Inl (IndexPanic (length args) (max 1 (length args))), files = [], stdout = []\<rparr>
      else case open_csv fs (args ! 1) of
        Inl e \<Rightarrow> \<lparr>exit_result = Inl (CsvError e), files = [], stdout = []\<rparr>
      | Inr rows1 \<Rightarrow>
          (case build_index Map.empty (read_utxo_dump rows1) of
             Inl e \<Rightarrow> \<lparr>exit_result = Inl (CsvError e), files = [],
                      stdout = [''Dumping p2wsh utxo set...'']\<rparr>
           | Inr idx \<Rightarrow>
               (case open_csv fs (args ! 2) of
                  Inl e \<Rightarrow> \<lparr>exit_result = Inl (CsvError e), files = [],
                           stdout = [''Dumping p2wsh utxo set...'']\<rparr>
                | Inr rows2 \<Rightarrow>
                    (case run_rows (main_config args) idx init_state (read_iterate_dump rows2) of
                       Inl (e, s) \<Rightarrow>
                         \<lparr>exit_result = Inl (CsvError e), files = written s,
                          stdout = [''Dumping p2wsh utxo set...'', ''Analyzing all utxos...''] @ console s\<rparr>
                     | Inr s \<Rightarrow>
                         \<lparr>exit_result = Inr (), files = written (finish (main_config args) s),
                          stdout = [''Dumping p2wsh utxo set...'', ''Analyzing all utxos...'']
                                   @ console (finish (main_config args) s)\<rparr>))))"

text \<open>
  The join the spec describes, on the decoded dumps themselves: for each position row in
  order, one enriched record per record of the UTXO dump with the same txid, in the
  order of the dump.
\<close>

definition dump_join :: "string \<Rightarrow> utxo_dump list \<Rightarrow> iterate_dump list \<Rightarrow> utxo list" where
  "dump_join minimized us its =
     concat (map (\<lambda>it. map (make_utxo minimized it) (filter (\<lambda>u. txid u = iterate_txid it) us)) its)"

section \<open>Lemmas\<close>

lemma join_group_by_txid:
  "join minimized (group_by_txid us) its = dump_join minimized us its"
  unfolding join_def dump_join_def group_by_txid_def
  by (intro arg_cong[where f = concat] map_cong) (simp_all split: list.split)

lemma build_index_Inr:
  "build_index Map.empty (map Inr us) = Inr (group_by_txid us)"
  by (simp add: build_index_foldl foldl_index_insert_empty)

lemma build_index_Inl:
  "build_index Map.empty (map Inr us @ Inl e # rest) = Inl e"
proof -
  have "sequence_results (map Inr us @ Inl e # rest) = Inl e"
    by (induction us) simp_all
  then show ?thesis by (simp add: build_index_foldl)
qed

lemma written_foldl_json:
  assumes "output_type cfg = ''json''"
    and "length (join (minimized_type cfg) idx its) < 2 ^ 31"
  shows "written (foldl (process_row cfg idx) init_state its)
           = take (length (join (minimized_type cfg) idx its) div 10000)
               (json_parts (file_location cfg) (join (minimized_type cfg) idx its))"
proof -
  have "json_inv cfg ([] @ join (minimized_type cfg) idx its) (foldl (process_row cfg idx) init_state its)"
    using assms by (intro foldl_process_row_json_inv json_inv_init) simp_all
  then show ?thesis
    by (simp add: json_inv_def json_parts_def take_map)
qed

lemma sint_of_nat_i32_wrap:
  "2 ^ 31 \<le> n \<Longrightarrow> n < 2 ^ 32 \<Longrightarrow> sint (word_of_nat n :: i32) = int n - 2 ^ 32"
proof -
  assume n: "2 ^ 31 \<le> n" "n < 2 ^ 32"
  have "(int n + 2 ^ 31) mod 2 ^ 32 = (int n + 2 ^ 31 - 2 ^ 32 + 1 * 2 ^ 32) mod 2 ^ 32"
    by (simp add: add.commute)
  also have "\<dots> = (int n + 2 ^ 31 - 2 ^ 32) mod 2 ^ 32"
    by (rule mod_mult_self1)
  also have "\<dots> = int n + 2 ^ 31 - 2 ^ 32"
    using n by (intro mod_pos_pos_trivial) simp_all
  moreover have "(word_of_nat n :: i32) = word_of_int (int n)"
    by simp
  ultimately show ?thesis
    by (simp only: int_word_sint) simp
qed

lemma run_rows_map_Inr:
  "run_rows cfg idx s (map Inr its) = Inr (foldl (process_row cfg idx) s its)"
  using run_rows_append[of cfg idx s its "[]"] by simp

lemma main_run_loop:
  assumes "5 < length args" and "fs (args ! 1) = Some rows1"
    and "read_utxo_dump rows1 = map Inr us" and "fs (args ! 2) = Some rows2"
  shows "main_run args fs =
           (case run_rows (main_config args) (group_by_txid us) init_state (read_iterate_dump rows2) of
              Inl (e, s) \<Rightarrow>
                \<lparr>exit_result = Inl (CsvError e), files = written s,
                 stdout = [''Dumping p2wsh utxo set...'', ''Analyzing all utxos...''] @ console s\<rparr>
            | Inr s \<Rightarrow>
                \<lparr>exit_result = Inr (), files = written (finish (main_config args) s),
                 stdout = [''Dumping p2wsh utxo set...'', ''Analyzing all utxos...'']
                          @ console (finish (main_config args) s)\<rparr>)"
  using assms by (simp add: main_run_def open_csv_def build_index_Inr)

lemma flush_due_small:
  assumes "output_type cfg = ''json''" and "n < 2 ^ 31"
  shows "flush_due cfg (word_of_nat n) \<longleftrightarrow> 10000 dvd n"
proof -
  have "sint (word_of_nat n :: i32) = int n"
    by (rule sint_of_nat_i32[OF assms(2)])
  then have "flush_due cfg (word_of_nat n) \<longleftrightarrow> (10000 :: int) dvd int n"
    using assms(1) by (simp add: flush_due_def smod_eq_0_iff_dvd)
  also have "\<dots> \<longleftrightarrow> 10000 dvd n"
    by (metis int_dvd_int_iff of_nat_numeral)
  finally show ?thesis .
qed

lemma flush_due_wrapped:
  assumes "output_type cfg = ''json''" and "2 ^ 31 \<le> n" and "n < 2 ^ 32"
  shows "flush_due cfg (word_of_nat n) \<longleftrightarrow> 10000 dvd (n + 2704)"
proof -
  have e: "int n - 2 ^ 32 = int (n + 2704) + (- 429497) * 10000"
    by simp
  have "sint (word_of_nat n :: i32) = int n - 2 ^ 32"
    using assms(2,3) by (rule sint_of_nat_i32_wrap)
  then have "flush_due cfg (word_of_nat n) \<longleftrightarrow> (10000 :: int) dvd (int n - 2 ^ 32)"
    using assms(1) by (simp add: flush_due_def smod_eq_0_iff_dvd)
  also have "\<dots> \<longleftrightarrow> 10000 dvd int (n + 2704)"
    by (simp only: e dvd_add_times_triv_right_iff)
  also have "\<dots> \<longleftrightarrow> 10000 dvd (n + 2704)"
    by (metis int_dvd_int_iff of_nat_numeral)
  finally show ?thesis .
qed

lemma json_inv_foldl_init:
  assumes "output_type cfg = ''json''"
    and "length (join (minimized_type cfg) idx its) < 2 ^ 31"
  shows "json_inv cfg (join (minimized_type cfg) idx its) (foldl (process_row cfg idx) init_state its)"
  using foldl_process_row_json_inv[OF assms(1) json_inv_init, of idx its] assms(2) by simp

lemma console_finish_json:
  assumes "output_type cfg = ''json''" and "json_inv cfg rs s"
  shows "console (finish cfg s) = console s @
           [''Wrote '' @ show_nat (length rs mod 10000) @ '' transactions for part ''
              @ show_nat (length rs div 10000 + 1) @ ''...'',
            ''Wrote '' @ show_nat (length rs) @ '' total transactions'']"
proof -
  let ?n = "length rs" and ?k = "length rs div 10000"
  have n: "?n < 2 ^ 31" and k: "?k + 1 < 2 ^ 31"
    using assms(2) by (simp_all add: json_inv_def) linarith
  have f: "sint (found s) = int ?n"
    using assms(2) sint_of_nat_i32[OF n] by (simp add: json_inv_def)
  have p: "sint (part s) = int (?k + 1)"
    using assms(2) sint_of_nat_i32[OF k] by (simp add: json_inv_def)
  have l: "length (scrape_results s) = ?n mod 10000"
    using assms(2) by (simp add: json_inv_def minus_div_mult_eq_mod)
  have r: "final_report s =
           [''Wrote '' @ show_nat (length rs mod 10000) @ '' transactions for part ''
              @ show_nat (length rs div 10000 + 1) @ ''...'',
            ''Wrote '' @ show_nat (length rs) @ '' total transactions'']"
    by (simp only: final_report_def f p l show_int_of_nat)
  have "final_report (s\<lparr>written := w\<rparr>) = final_report s" for w
    by (simp add: final_report_def)
  then show ?thesis
    using assms(1) r by (simp add: finish_def Let_def)
qed

section \<open>Properties of a run\<close>

text \<open>
  C21 (refinement, end to end). A \<open>json\<close> run on two dumps that decode completely,
  with fewer than \<open>2 ^ 31\<close> matches, returns \<open>Ok(())\<close> and writes exactly the
  specified parts of the join of the two dumps: for each position row in order, one
  record per UTXO-dump record with the same txid, in dump order, 10,000 to a part.
\<close>

theorem main_run_json:
  assumes "5 < length args" and "fs (args ! 1) = Some rows1"
    and "read_utxo_dump rows1 = map Inr us" and "fs (args ! 2) = Some rows2"
    and "read_iterate_dump rows2 = map Inr its" and "args ! 3 = ''json''"
    and "length (dump_join (args ! 4) us its) < 2 ^ 31"
  shows "exit_result (main_run args fs) = Inr ()
         \<and> files (main_run args fs) = json_parts (args ! 5) (dump_join (args ! 4) us its)"
proof -
  have cfg: "output_type (main_config args) = ''json''" "minimized_type (main_config args) = args ! 4"
    "file_location (main_config args) = args ! 5"
    using assms(6) by (simp_all add: main_config_def)
  have "written (finish (main_config args) (foldl (process_row (main_config args) (group_by_txid us)) init_state its))
      = json_parts (args ! 5) (dump_join (args ! 4) us its)"
    using written_finish_json[of "main_config args" "group_by_txid us" its] assms(7) cfg
    by (simp add: join_group_by_txid)
  then show ?thesis
    using main_run_loop[OF assms(1-4)] assms(5) by (simp add: run_rows_map_Inr)
qed

theorem main_run_json_witness:
  "main_run [''p2wsh'', ''u.csv'', ''p.csv'', ''json'', ''min'', ''out'']
     [''u.csv'' \<mapsto> [map string_bytes [''txid'', ''vout'', ''height'', ''amount''],
                    map string_bytes [''ab'', ''1'', ''9'', ''50''],
                    map string_bytes [''ab'', ''4'', ''9'', ''70'']],
      ''p.csv'' \<mapsto> [map string_bytes [''zz'', ''3''], map string_bytes [''ab'', ''5'']]]
   = \<lparr>exit_result = Inr (), files = [JsonPart ''out/part-1.json''
        [\<lparr>block_height = 9, utxo_id = None, block_index = 5, transaction_index = 1, amount = None\<rparr>,
         \<lparr>block_height = 9, utxo_id = None, block_index = 5, transaction_index = 4, amount = None\<rparr>]],
      stdout = [''Dumping p2wsh utxo set...'', ''Analyzing all utxos...'',
                ''Wrote 2 transactions for part 1...'', ''Wrote 2 total transactions'']\<rparr>"
proof -
  let ?args = "[''p2wsh'', ''u.csv'', ''p.csv'', ''json'', ''min'', ''out'']"
  let ?rows1 = "[map string_bytes [''txid'', ''vout'', ''height'', ''amount''],
                    map string_bytes [''ab'', ''1'', ''9'', ''50''],
                    map string_bytes [''ab'', ''4'', ''9'', ''70'']]"
  let ?rows2 = "[map string_bytes [''zz'', ''3''], map string_bytes [''ab'', ''5'']]"
  let ?fs = "[''u.csv'' \<mapsto> ?rows1, ''p.csv'' \<mapsto> ?rows2]"
  let ?us = "[\<lparr>txid = ''ab'', vout = 1, height = 9, dump_amount = 50\<rparr>,
              \<lparr>txid = ''ab'', vout = 4, height = 9, dump_amount = 70\<rparr>]"
  let ?its = "[\<lparr>iterate_txid = ''zz'', tx_height = 3\<rparr>, \<lparr>iterate_txid = ''ab'', tx_height = 5\<rparr>]"
  have r1: "read_utxo_dump ?rows1 = map Inr ?us"
    by (simp add: read_utxo_dump_def decode_utxo_dump_row_def string_bytes_def bytes_string_def
        char_of_def bit_0 parse_field_def deserialize_int_def from_str_radix_def to_digit_def utf8_lead_def empty_partial_def
        utxo_dump_finish_def)
  have r2: "read_iterate_dump ?rows2 = map Inr ?its"
    by (simp add: read_iterate_dump_def decode_iterate_row_def iterate_dump_visit_seq_def seq_next_def
        string_bytes_def bytes_string_def char_of_def bit_0 parse_field_def deserialize_int_def from_str_radix_def to_digit_def utf8_lead_def)
  have j: "dump_join ''min'' ?us ?its =
        [\<lparr>block_height = 9, utxo_id = None, block_index = 5, transaction_index = 1, amount = None\<rparr>,
         \<lparr>block_height = 9, utxo_id = None, block_index = 5, transaction_index = 4, amount = None\<rparr>]"
    by (simp add: dump_join_def make_utxo_def)
  have "exit_result (main_run ?args ?fs) = Inr ()
        \<and> files (main_run ?args ?fs) = json_parts (?args ! 5) (dump_join (?args ! 4) ?us ?its)"
    by (rule main_run_json[OF _ _ r1 _ r2]) (simp_all add: j)
  moreover have "stdout (main_run ?args ?fs) = [''Dumping p2wsh utxo set...'', ''Analyzing all utxos...'',
                ''Wrote 2 transactions for part 1...'', ''Wrote 2 total transactions'']"
  proof -
    have "main_run ?args ?fs =
           (case run_rows (main_config ?args) (group_by_txid ?us) init_state (read_iterate_dump ?rows2) of
              Inl (e, s) \<Rightarrow>
                \<lparr>exit_result = Inl (CsvError e), files = written s,
                 stdout = [''Dumping p2wsh utxo set...'', ''Analyzing all utxos...''] @ console s\<rparr>
            | Inr s \<Rightarrow>
                \<lparr>exit_result = Inr (), files = written (finish (main_config ?args) s),
                 stdout = [''Dumping p2wsh utxo set...'', ''Analyzing all utxos...'']
                          @ console (finish (main_config ?args) s)\<rparr>)"
      by (rule main_run_loop[OF _ _ r1]) simp_all
    then show ?thesis
      by (simp only: r2 run_rows_map_Inr)
         (simp add: main_config_def group_by_txid_def process_row_def count_row_def emit_def
          flush_due_def finish_def final_report_def init_state_def make_utxo_def show_int_def
          show_nat.simps digit_char_def Let_def smod_eq_0_iff_dvd)
  qed
  ultimately show ?thesis
    by (simp add: j json_parts_def json_part_def show_nat.simps digit_char_def)
qed

text \<open>
  The spec's end-to-end scenario, evaluated. A UTXO dump with the row
  (abc, 2, 100, 5000) and a position dump with the row (abc, 7), run as \<open>json full\<close>,
  write one file \<open>part-1.json\<close> with the one record (height 100, id abc, block
  index 7, transaction index 2, amount 5000), and the run returns \<open>Ok(())\<close>. The
  UTXO dump here has the extra columns of the real dump.
\<close>

lemma main_run_spec_scenario:
  "main_run [''p2wsh-utxo'', ''utxodump.csv'', ''iterate.csv'', ''json'', ''full'', ''out'']
     [''utxodump.csv'' \<mapsto> [map string_bytes [''count'', ''txid'', ''vout'', ''height'', ''coinbase'', ''amount''],
                           map string_bytes [''1'', ''abc'', ''2'', ''100'', ''0'', ''5000'']],
      ''iterate.csv'' \<mapsto> [map string_bytes [''abc'', ''7'']]]
   = \<lparr>exit_result = Inr (),
      files = [JsonPart ''out/part-1.json''
        [\<lparr>block_height = 100, utxo_id = Some ''abc'', block_index = 7, transaction_index = 2,
           amount = Some 5000\<rparr>]],
      stdout = [''Dumping p2wsh utxo set...'', ''Analyzing all utxos...'',
                ''Wrote 1 transactions for part 1...'', ''Wrote 1 total transactions'']\<rparr>"
  by (simp add: main_run_def open_csv_def main_config_def read_utxo_dump_def decode_utxo_dump_row_def
      read_iterate_dump_def decode_iterate_row_def iterate_dump_visit_seq_def seq_next_def
      string_bytes_def bytes_string_def char_of_def bit_0 parse_field_def deserialize_int_def from_str_radix_def to_digit_def utf8_lead_def
      empty_partial_def utxo_dump_finish_def build_index_foldl index_insert_def
      process_row_def count_row_def emit_def flush_due_def make_utxo_def init_state_def finish_def
      final_report_def part_path_def show_int_def show_nat.simps digit_char_def Let_def smod_eq_0_iff_dvd)

text \<open>
  C22 (error, ordering). A row of the UTXO dump that fails to decode ends the run with
  that row's error before the position dump is opened: the outcome does not depend on
  the position dump (it may be missing, as in the witness), and nothing is written.
\<close>

theorem main_run_utxo_row_error:
  assumes "5 < length args" and "fs (args ! 1) = Some rows1"
    and "read_utxo_dump rows1 = map Inr us @ Inl e # rest"
  shows "main_run args fs =
           \<lparr>exit_result = Inl (CsvError e), files = [], stdout = [''Dumping p2wsh utxo set...'']\<rparr>"
  using assms by (simp add: main_run_def open_csv_def build_index_Inl)

theorem main_run_utxo_row_error_witness:
  "main_run [''p'', ''u'', ''i'', ''json'', ''full'', ''o'']
     [''u'' \<mapsto> [map string_bytes [''txid'', ''vout'', ''height'', ''amount''],
                 map string_bytes [''ab'', ''x'', ''9'', ''50'']]]
   = \<lparr>exit_result = Inl (CsvError (ParseInt ''vout'' InvalidDigit)), files = [],
      stdout = [''Dumping p2wsh utxo set...'']\<rparr>"
proof -
  let ?rows1 = "[map string_bytes [''txid'', ''vout'', ''height'', ''amount''],
                 map string_bytes [''ab'', ''x'', ''9'', ''50'']]"
  have r1: "read_utxo_dump ?rows1 = map Inr [] @ Inl (ParseInt ''vout'' InvalidDigit) # []"
    by (simp add: read_utxo_dump_def decode_utxo_dump_row_def string_bytes_def bytes_string_def
        char_of_def bit_0 parse_field_def deserialize_int_def from_str_radix_def to_digit_def utf8_lead_def empty_partial_def)
  show ?thesis
    using main_run_utxo_row_error[OF _ _ r1, of "[''p'', ''u'', ''i'', ''json'', ''full'', ''o'']"
        "[''u'' \<mapsto> ?rows1]"] by simp
qed

text \<open>
  C23 (error, partial output). In \<open>json\<close> mode, a row of the position dump that
  fails to decode ends the run with its error, and the parts flushed before it stay on
  disk: exactly the full parts of the join of the rows before the bad one, and no final
  part.
\<close>

theorem main_run_position_row_error:
  assumes "5 < length args" and "fs (args ! 1) = Some rows1"
    and "read_utxo_dump rows1 = map Inr us" and "fs (args ! 2) = Some rows2"
    and "read_iterate_dump rows2 = map Inr its @ Inl e # rest" and "args ! 3 = ''json''"
    and "length (dump_join (args ! 4) us its) < 2 ^ 31"
  shows "exit_result (main_run args fs) = Inl (CsvError e)
         \<and> files (main_run args fs) = take (length (dump_join (args ! 4) us its) div 10000)
                                       (json_parts (args ! 5) (dump_join (args ! 4) us its))"
proof -
  have cfg: "output_type (main_config args) = ''json''" "minimized_type (main_config args) = args ! 4"
    "file_location (main_config args) = args ! 5"
    using assms(6) by (simp_all add: main_config_def)
  have "run_rows (main_config args) (group_by_txid us) init_state (read_iterate_dump rows2)
      = Inl (e, foldl (process_row (main_config args) (group_by_txid us)) init_state its)"
    using assms(5) by (simp add: run_rows_append)
  moreover have "written (foldl (process_row (main_config args) (group_by_txid us)) init_state its)
      = take (length (dump_join (args ! 4) us its) div 10000) (json_parts (args ! 5) (dump_join (args ! 4) us its))"
    using written_foldl_json[of "main_config args" "group_by_txid us" its] assms(7) cfg
    by (simp add: join_group_by_txid)
  ultimately show ?thesis
    using main_run_loop[OF assms(1-4)] by simp
qed

theorem main_run_position_row_error_witness:
  "main_run [''p'', ''u'', ''i'', ''json'', ''full'', ''o'']
     [''u'' \<mapsto> [map string_bytes [''txid'', ''vout'', ''height'', ''amount''],
                 map string_bytes [''ab'', ''1'', ''9'', ''50'']],
      ''i'' \<mapsto> [map string_bytes [''ab'', ''5''], map string_bytes [''ab'', ''5'', ''6'']]]
   = \<lparr>exit_result = Inl (CsvError (UnequalLengths 2 3)), files = [],
      stdout = [''Dumping p2wsh utxo set...'', ''Analyzing all utxos...'']\<rparr>"
proof -
  let ?rows1 = "[map string_bytes [''txid'', ''vout'', ''height'', ''amount''],
                 map string_bytes [''ab'', ''1'', ''9'', ''50'']]"
  let ?rows2 = "[map string_bytes [''ab'', ''5''], map string_bytes [''ab'', ''5'', ''6'']]"
  let ?us = "[\<lparr>txid = ''ab'', vout = 1, height = 9, dump_amount = 50\<rparr>]"
  let ?its = "[\<lparr>iterate_txid = ''ab'', tx_height = 5\<rparr>]"
  have r1: "read_utxo_dump ?rows1 = map Inr ?us"
    by (simp add: read_utxo_dump_def decode_utxo_dump_row_def string_bytes_def bytes_string_def
        char_of_def bit_0 parse_field_def deserialize_int_def from_str_radix_def to_digit_def utf8_lead_def empty_partial_def
        utxo_dump_finish_def)
  have r2: "read_iterate_dump ?rows2 = map Inr ?its @ Inl (UnequalLengths 2 3) # []"
    by (simp add: read_iterate_dump_def decode_iterate_row_def iterate_dump_visit_seq_def seq_next_def
        string_bytes_def bytes_string_def char_of_def bit_0 parse_field_def deserialize_int_def from_str_radix_def to_digit_def utf8_lead_def)
  have j: "length (dump_join ''full'' ?us ?its) = 1"
    by (simp add: dump_join_def)
  let ?args = "[''p'', ''u'', ''i'', ''json'', ''full'', ''o'']"
  let ?fs = "[''u'' \<mapsto> ?rows1, ''i'' \<mapsto> ?rows2]"
  have "exit_result (main_run ?args ?fs) = Inl (CsvError (UnequalLengths 2 3))
      \<and> files (main_run ?args ?fs) =
         take (length (dump_join (?args ! 4) ?us ?its) div 10000)
           (json_parts (?args ! 5) (dump_join (?args ! 4) ?us ?its))"
    by (rule main_run_position_row_error[OF _ _ r1 _ r2]) (simp_all add: j)
  moreover have "stdout (main_run ?args ?fs) = [''Dumping p2wsh utxo set...'', ''Analyzing all utxos...'']"
  proof -
    have "main_run ?args ?fs =
           (case run_rows (main_config ?args) (group_by_txid ?us) init_state (read_iterate_dump ?rows2) of
              Inl (e, s) \<Rightarrow>
                \<lparr>exit_result = Inl (CsvError e), files = written s,
                 stdout = [''Dumping p2wsh utxo set...'', ''Analyzing all utxos...''] @ console s\<rparr>
            | Inr s \<Rightarrow>
                \<lparr>exit_result = Inr (), files = written (finish (main_config ?args) s),
                 stdout = [''Dumping p2wsh utxo set...'', ''Analyzing all utxos...'']
                          @ console (finish (main_config ?args) s)\<rparr>)"
      by (rule main_run_loop[OF _ _ r1]) simp_all
    then show ?thesis
      by (simp only: r2 run_rows_append)
         (simp add: main_config_def group_by_txid_def process_row_def count_row_def emit_def
          flush_due_def init_state_def Let_def smod_eq_0_iff_dvd)
  qed
  ultimately show ?thesis
    by (simp add: j)
qed

text \<open>
  C24 (bounds, wrap-around). The match counter \<open>found\<close> is an \<open>i32\<close>. In \<open>json\<close>
  mode a part is flushed when the counter, after the increment for the
  \<open>n\<close>-th match, is a multiple of 10,000: for \<open>n < 2 ^ 31\<close> that is when \<open>n\<close> is,
  and once the counter has wrapped to negative values (a release build) it is when
  \<open>n + 2704\<close> is, since \<open>2 ^ 32\<close> leaves 7296 modulo 10,000. The part that spans
  the wrap therefore holds 7296 records, not 10,000.
\<close>

theorem flush_due_found_wrap:
  assumes "output_type cfg = ''json''" and "n < 2 ^ 32"
  shows "flush_due cfg (word_of_nat n) \<longleftrightarrow>
           (if n < 2 ^ 31 then 10000 dvd n else 10000 dvd (n + 2704))"
  using flush_due_small[OF assms(1)] flush_due_wrapped[OF assms(1) _ assms(2)]
  by (cases "n < 2 ^ 31") simp_all

theorem flush_due_found_wrap_witness:
  "output_type \<lparr>output_type = ''json'', minimized_type = ''full'', file_location = ''o''\<rparr> = ''json''
   \<and> (2147487296 :: nat) < 2 ^ 32
   \<and> flush_due \<lparr>output_type = ''json'', minimized_type = ''full'', file_location = ''o''\<rparr>
        (word_of_nat (2147487296 :: nat))
   \<and> \<not> flush_due \<lparr>output_type = ''json'', minimized_type = ''full'', file_location = ''o''\<rparr>
        (word_of_nat (2147490000 :: nat))"
proof -
  let ?cfg = "\<lparr>output_type = ''json'', minimized_type = ''full'', file_location = ''o''\<rparr>"
  have a: "flush_due ?cfg (word_of_nat (2147487296 :: nat))"
    using flush_due_found_wrap[of ?cfg 2147487296] by simp
  have b: "\<not> flush_due ?cfg (word_of_nat (2147490000 :: nat))"
    using flush_due_found_wrap[of ?cfg 2147490000] by simp
  show ?thesis using a b by simp
qed


text \<open>
  C28 (functional, report). A \<open>json\<close> run as in C21 prints the two start lines
  first and ends with the report the spec asks for: the number of records in the last
  part with that part's number, and the total number of matched records.
\<close>

theorem main_run_json_report:
  assumes "5 < length args" and "fs (args ! 1) = Some rows1"
    and "read_utxo_dump rows1 = map Inr us" and "fs (args ! 2) = Some rows2"
    and "read_iterate_dump rows2 = map Inr its" and "args ! 3 = ''json''"
    and "length (dump_join (args ! 4) us its) < 2 ^ 31"
  shows "\<exists>mid. stdout (main_run args fs) =
           [''Dumping p2wsh utxo set...'', ''Analyzing all utxos...''] @ mid @
           [''Wrote '' @ show_nat (length (dump_join (args ! 4) us its) mod 10000)
              @ '' transactions for part '' @ show_nat (length (dump_join (args ! 4) us its) div 10000 + 1) @ ''...'',
            ''Wrote '' @ show_nat (length (dump_join (args ! 4) us its)) @ '' total transactions'']"
proof -
  let ?cfg = "main_config args" and ?idx = "group_by_txid us"
  let ?s = "foldl (process_row ?cfg ?idx) init_state its"
  have cfg: "output_type ?cfg = ''json''" "minimized_type ?cfg = args ! 4"
    using assms(6) by (simp_all add: main_config_def)
  have j: "join (minimized_type ?cfg) ?idx its = dump_join (args ! 4) us its"
    using cfg by (simp add: join_group_by_txid)
  have "json_inv ?cfg (dump_join (args ! 4) us its) ?s"
    using json_inv_foldl_init[OF cfg(1), of ?idx its] assms(7) j by simp
  then have "console (finish ?cfg ?s) = console ?s @
           [''Wrote '' @ show_nat (length (dump_join (args ! 4) us its) mod 10000)
              @ '' transactions for part '' @ show_nat (length (dump_join (args ! 4) us its) div 10000 + 1) @ ''...'',
            ''Wrote '' @ show_nat (length (dump_join (args ! 4) us its)) @ '' total transactions'']"
    by (rule console_finish_json[OF cfg(1)])
  then show ?thesis
    using main_run_loop[OF assms(1-4)] assms(5) by (simp add: run_rows_map_Inr)
qed

theorem main_run_json_report_witness:
  "\<exists>mid. stdout (main_run [''p'', ''u'', ''i'', ''json'', ''full'', ''o'']
     [''u'' \<mapsto> [map string_bytes [''txid'', ''vout'', ''height'', ''amount''],
                 map string_bytes [''ab'', ''1'', ''9'', ''50'']],
      ''i'' \<mapsto> [map string_bytes [''ab'', ''5'']]])
   = [''Dumping p2wsh utxo set...'', ''Analyzing all utxos...''] @ mid @
     [''Wrote 1 transactions for part 1...'', ''Wrote 1 total transactions'']"
proof -
  let ?rows1 = "[map string_bytes [''txid'', ''vout'', ''height'', ''amount''],
                 map string_bytes [''ab'', ''1'', ''9'', ''50'']]"
  let ?rows2 = "[map string_bytes [''ab'', ''5'']]"
  let ?us = "[\<lparr>txid = ''ab'', vout = 1, height = 9, dump_amount = 50\<rparr>]"
  let ?its = "[\<lparr>iterate_txid = ''ab'', tx_height = 5\<rparr>]"
  let ?args = "[''p'', ''u'', ''i'', ''json'', ''full'', ''o'']"
  have r1: "read_utxo_dump ?rows1 = map Inr ?us"
    by (simp add: read_utxo_dump_def decode_utxo_dump_row_def string_bytes_def bytes_string_def
        char_of_def bit_0 parse_field_def deserialize_int_def from_str_radix_def to_digit_def utf8_lead_def empty_partial_def
        utxo_dump_finish_def)
  have r2: "read_iterate_dump ?rows2 = map Inr ?its"
    by (simp add: read_iterate_dump_def decode_iterate_row_def iterate_dump_visit_seq_def seq_next_def
        string_bytes_def bytes_string_def char_of_def bit_0 parse_field_def deserialize_int_def from_str_radix_def to_digit_def utf8_lead_def)
  have j: "length (dump_join (?args ! 4) ?us ?its) = 1"
    by (simp add: dump_join_def)
  have "\<exists>mid. stdout (main_run ?args [''u'' \<mapsto> ?rows1, ''i'' \<mapsto> ?rows2]) =
           [''Dumping p2wsh utxo set...'', ''Analyzing all utxos...''] @ mid @
           [''Wrote '' @ show_nat (length (dump_join (?args ! 4) ?us ?its) mod 10000)
              @ '' transactions for part '' @ show_nat (length (dump_join (?args ! 4) ?us ?its) div 10000 + 1) @ ''...'',
            ''Wrote '' @ show_nat (length (dump_join (?args ! 4) ?us ?its)) @ '' total transactions'']"
    by (rule main_run_json_report[OF _ _ r1 _ r2]) (simp_all add: dump_join_def)
  then show ?thesis
    by (simp only: j) (simp add: show_nat.simps digit_char_def)
qed

end
