(* ===== verification/Bincode.thy ===== *)
theory Bincode
  imports Scid
begin

text \<open>
  The binary format of the crate: bincode 1 with its default options (fixed-width
  little-endian integers, \<open>u64\<close> lengths, trailing bytes allowed), applied to the
  serde-derived \<open>Serialize\<close>/\<open>Deserialize\<close> of \<open>UTXO\<close> (\<open>src/src/lib.rs\<close> lines 12
  to 21). \<open>main\<close> writes \<open>Vec<UTXO>\<close> with \<open>bincode::serialize_into\<close>
  (\<open>src/src/bin/main.rs\<close> line 139); \<open>UTXOResults::new\<close> reads its embedded file as
  \<open>Option<Vec<UTXO>>\<close> (\<open>lib.rs\<close> lines 53 to 58).

  The derive honours \<open>skip_serializing_if = "Option::is_none"\<close> on \<open>id\<close> and
  \<open>amount\<close>: a \<open>None\<close> field is left out of the output, while decoding always
  expects all five fields. The lemmas show the round trip for records whose optional
  fields are present, that records with absent fields cannot be read back, and that
  \<open>UTXOResults::new\<close> does not read the format \<open>main\<close> writes.
\<close>

section \<open>Encoding\<close>

definition encode_u16 :: "u16 \<Rightarrow> bytes" where
  "encode_u16 w = le_bytes 2 w"

definition encode_u32 :: "u32 \<Rightarrow> bytes" where
  "encode_u32 w = le_bytes 4 w"

definition encode_u64 :: "u64 \<Rightarrow> bytes" where
  "encode_u64 w = le_bytes 8 w"

text \<open>A \<open>String\<close>: its length as \<open>u64\<close>, then its bytes.\<close>

definition encode_string :: "string \<Rightarrow> bytes" where
  "encode_string s = encode_u64 (word_of_nat (length s)) @ string_bytes s"

text \<open>An \<open>Option\<close>: a tag byte 0 for \<open>None\<close>, 1 followed by the value for \<open>Some\<close>.\<close>

definition encode_option :: "('a \<Rightarrow> bytes) \<Rightarrow> 'a option \<Rightarrow> bytes" where
  "encode_option enc x = (case x of None \<Rightarrow> [0] | Some v \<Rightarrow> 1 # enc v)"

text \<open>A field marked \<open>skip_serializing_if = "Option::is_none"\<close>: nothing for \<open>None\<close>.\<close>

definition encode_skip_none :: "('a \<Rightarrow> bytes) \<Rightarrow> 'a option \<Rightarrow> bytes" where
  "encode_skip_none enc x = (case x of None \<Rightarrow> [] | Some v \<Rightarrow> encode_option enc (Some v))"

text \<open>The derived \<open>Serialize\<close> of \<open>UTXO\<close>: the fields in declaration order.\<close>

definition encode_utxo :: "utxo \<Rightarrow> bytes" where
  "encode_utxo u =
     encode_u32 (block_height u) @ encode_skip_none encode_string (utxo_id u)
     @ encode_u16 (block_index u) @ encode_u16 (transaction_index u)
     @ encode_skip_none encode_u64 (amount u)"

text \<open>A \<open>Vec\<close>: its length as \<open>u64\<close>, then the elements.\<close>

definition encode_vec :: "('a \<Rightarrow> bytes) \<Rightarrow> 'a list \<Rightarrow> bytes" where
  "encode_vec enc xs = encode_u64 (word_of_nat (length xs)) @ concat (map enc xs)"

text \<open>What \<open>bincode::serialize_into(writer, &scrape_results)\<close> writes (line 139).\<close>

definition serialize_results :: "utxo list \<Rightarrow> bytes" where
  "serialize_results rs = encode_vec encode_utxo rs"

section \<open>Decoding\<close>

datatype bincode_error = UnexpectedEof | InvalidTagEncoding u8 | InvalidUtf8Encoding

type_synonym 'a decoder = "bytes \<Rightarrow> bincode_error + ('a \<times> bytes)"

definition decode_word :: "nat \<Rightarrow> ('a::len word) decoder" where
  "decode_word n bs =
     (if length bs < n then Inl UnexpectedEof else Inr (of_le_bytes (take n bs), drop n bs))"

definition decode_u16 :: "u16 decoder" where
  "decode_u16 = decode_word 2"

definition decode_u32 :: "u32 decoder" where
  "decode_u32 = decode_word 4"

definition decode_u64 :: "u64 decoder" where
  "decode_u64 = decode_word 8"

text \<open>A \<open>String\<close>: the length, that many bytes, which must be UTF-8.\<close>

definition decode_string :: "string decoder" where
  "decode_string bs =
     bind_res (decode_u64 bs) (\<lambda>(n, rest).
       if length rest < unat n then Inl UnexpectedEof
       else if utf8_valid (take (unat n) rest)
       then Inr (bytes_string (take (unat n) rest), drop (unat n) rest)
       else Inl InvalidUtf8Encoding)"

definition decode_option :: "'a decoder \<Rightarrow> 'a option decoder" where
  "decode_option dec bs =
     (case bs of
        [] \<Rightarrow> Inl UnexpectedEof
      | b # rest \<Rightarrow>
          if b = 0 then Inr (None, rest)
          else if b = 1 then map_sum id (\<lambda>(v, r). (Some v, r)) (dec rest)
          else Inl (InvalidTagEncoding b))"

text \<open>The derived \<open>Deserialize\<close> of \<open>UTXO\<close>: all five fields, in order.\<close>

definition decode_utxo :: "utxo decoder" where
  "decode_utxo bs =
     bind_res (decode_u32 bs) (\<lambda>(h, bs1).
     bind_res (decode_option decode_string bs1) (\<lambda>(txid, bs2).
     bind_res (decode_u16 bs2) (\<lambda>(bi, bs3).
     bind_res (decode_u16 bs3) (\<lambda>(ti, bs4).
     bind_res (decode_option decode_u64 bs4) (\<lambda>(am, bs5).
       Inr (\<lparr>block_height = h, utxo_id = txid, block_index = bi, transaction_index = ti,
             amount = am\<rparr>, bs5))))))"

fun decode_n :: "nat \<Rightarrow> 'a decoder \<Rightarrow> 'a list decoder" where
  "decode_n 0 dec bs = Inr ([], bs)"
| "decode_n (Suc k) dec bs =
     bind_res (dec bs) (\<lambda>(x, r). bind_res (decode_n k dec r) (\<lambda>(xs, r'). Inr (x # xs, r')))"

definition decode_vec :: "'a decoder \<Rightarrow> 'a list decoder" where
  "decode_vec dec bs = bind_res (decode_u64 bs) (\<lambda>(n, rest). decode_n (unat n) dec rest)"

text \<open>\<open>bincode::deserialize\<close>: decode a value and ignore what follows it.\<close>

definition deserialize :: "'a decoder \<Rightarrow> bytes \<Rightarrow> bincode_error + 'a" where
  "deserialize dec bs = map_sum id fst (dec bs)"

section \<open>\<open>UTXOResults\<close>\<close>

record utxo_results =
  results_vec :: "utxo list"

text \<open>
  \<open>UTXOResults::new\<close>: deserialize the embedded bytes \<open>P2WSH_BIN\<close> as
  \<open>Option<Vec<UTXO>>\<close> and unwrap twice; either unwrap panics (the \<open>Inl\<close> value is
  the panic message).
\<close>

definition utxo_results_new :: "bytes \<Rightarrow> string + utxo_results" where
  "utxo_results_new p2wsh_bin =
     (case deserialize (decode_option (decode_vec decode_utxo)) p2wsh_bin of
        Inl e \<Rightarrow> Inl ''called `Result::unwrap()` on an `Err` value''
      | Inr None \<Rightarrow> Inl ''called `Option::unwrap()` on a `None` value''
      | Inr (Some decoded) \<Rightarrow> Inr \<lparr>results_vec = decoded\<rparr>)"

text \<open>\<open>UTXOResults::results\<close>: a copy of the vector.\<close>

definition results :: "utxo_results \<Rightarrow> utxo list" where
  "results r = results_vec r"

section \<open>Specification\<close>

text \<open>
  A record as the \<open>full\<close> mode makes it: txid and amount present, the txid a valid
  UTF-8 string shorter than \<open>2 ^ 64\<close> bytes.
\<close>

definition full_utxo :: "utxo \<Rightarrow> bool" where
  "full_utxo u \<longleftrightarrow>
     (case utxo_id u of
        None \<Rightarrow> False
      | Some s \<Rightarrow> utf8_valid (string_bytes s) \<and> length s < 2 ^ 64) \<and> amount u \<noteq> None"

definition minimized_utxo :: "utxo \<Rightarrow> bool" where
  "minimized_utxo u \<longleftrightarrow> utxo_id u = None \<and> amount u = None"

text \<open>A decoder that, when it succeeds, has read at least \<open>k\<close> bytes.\<close>

definition consumes :: "'a decoder \<Rightarrow> nat \<Rightarrow> bool" where
  "consumes dec k \<longleftrightarrow> (\<forall>bs x r. dec bs = Inr (x, r) \<longrightarrow> length r + k \<le> length bs)"

section \<open>Lemmas\<close>

lemma decode_word_le_bytes:
  "LENGTH('a) \<le> 8 * n \<Longrightarrow> decode_word n (le_bytes n (w :: 'a::len word) @ rest) = Inr (w, rest)"
  by (simp add: decode_word_def of_le_bytes_le_bytes_full)

lemma decode_u16_encode [simp]: "decode_u16 (encode_u16 w @ rest) = Inr (w, rest)"
  by (simp add: decode_u16_def encode_u16_def decode_word_le_bytes)
lemma decode_u32_encode [simp]: "decode_u32 (encode_u32 w @ rest) = Inr (w, rest)"
  by (simp add: decode_u32_def encode_u32_def decode_word_le_bytes)
lemma decode_u64_encode [simp]: "decode_u64 (encode_u64 w @ rest) = Inr (w, rest)"
  by (simp add: decode_u64_def encode_u64_def decode_word_le_bytes)

lemma decode_string_encode:
  assumes "utf8_valid (string_bytes s)" and "length s < 2 ^ 64"
  shows "decode_string (encode_string s @ rest) = Inr (s, rest)"
proof -
  have "unat (word_of_nat (length s) :: u64) = length s"
    using assms(2) by (simp add: unat_of_nat)
  with assms(1) show ?thesis
    by (simp add: decode_string_def encode_string_def)
qed

lemma decode_option_Some:
  "dec (enc v @ rest) = Inr (v, rest) \<Longrightarrow>
     decode_option dec (encode_option enc (Some v) @ rest) = Inr (Some v, rest)"
  by (simp add: decode_option_def encode_option_def)

lemma decode_utxo_encode_full:
  assumes "full_utxo u"
  shows "decode_utxo (encode_utxo u @ rest) = Inr (u, rest)"
proof -
  obtain s a where s: "utxo_id u = Some s" and a: "amount u = Some a"
    and v: "utf8_valid (string_bytes s)" and l: "length s < 2 ^ 64"
    using assms by (auto simp add: full_utxo_def split: option.splits)
  have ds: "decode_option decode_string (encode_option encode_string (Some s) @ r) = Inr (Some s, r)" for r
    by (rule decode_option_Some) (rule decode_string_encode[OF v l])
  have da: "decode_option decode_u64 (encode_option encode_u64 (Some a) @ r) = Inr (Some a, r)" for r
    by (rule decode_option_Some) simp
  show ?thesis
    using ds da s a
    by (simp add: decode_utxo_def encode_utxo_def encode_skip_none_def del: encode_option_def)
qed
lemma decode_n_concat:
  assumes "\<And>x r. x \<in> set xs \<Longrightarrow> dec (enc x @ r) = Inr (x, r)"
  shows "decode_n (length xs) dec (concat (map enc xs) @ rest) = Inr (xs, rest)"
  using assms by (induction xs) simp_all

lemma decode_vec_encode:
  assumes "\<And>x r. x \<in> set xs \<Longrightarrow> dec (enc x @ r) = Inr (x, r)" and "length xs < 2 ^ 64"
  shows "decode_vec dec (encode_vec enc xs @ rest) = Inr (xs, rest)"
proof -
  have "unat (word_of_nat (length xs) :: u64) = length xs"
    using assms(2) by (simp add: unat_of_nat)
  then show ?thesis
    using decode_n_concat[OF assms(1)] by (simp add: decode_vec_def encode_vec_def)
qed

lemma consumesD:
  "consumes dec k \<Longrightarrow> dec bs = Inr (x, r) \<Longrightarrow> length r + k \<le> length bs"
  by (simp add: consumes_def)

lemma consumes_decode_word: "consumes (decode_word n) n"
  by (simp add: consumes_def decode_word_def)

lemma consumes_decode_string: "consumes decode_string 8"
  by (auto simp add: consumes_def decode_string_def decode_u64_def decode_word_def
      bind_res_eq_Inr split: if_splits)

lemma consumes_decode_option:
  assumes "consumes dec 0"
  shows "consumes (decode_option dec) 1"
  unfolding consumes_def
proof (intro allI impI)
  fix bs x r
  assume d: "decode_option dec bs = Inr (x, r)"
  show "length r + 1 \<le> length bs"
  proof (cases bs)
    case Nil
    with d show ?thesis by (simp add: decode_option_def)
  next
    case (Cons b rest)
    have "length r \<le> length rest"
    proof (cases "b = 0")
      case True
      with d Cons show ?thesis by (simp add: decode_option_def)
    next
      case False
      with d Cons obtain v where "b = 1" and "dec rest = Inr (v, r)"
        by (cases "dec rest") (auto simp add: decode_option_def split: if_splits)
      then show ?thesis
        using consumesD[OF assms] by fastforce
    qed
    with Cons show ?thesis by simp
  qed
qed

lemma consumes_weaken: "consumes dec k \<Longrightarrow> j \<le> k \<Longrightarrow> consumes dec j"
  by (fastforce simp add: consumes_def)

lemma consumes_decode_utxo: "consumes decode_utxo 10"
proof -
  have w: "consumes (decode_word n) n" for n by (rule consumes_decode_word)
  have s: "consumes (decode_option decode_string) 1"
    by (rule consumes_decode_option, rule consumes_weaken[OF consumes_decode_string]) simp
  have a: "consumes (decode_option decode_u64) 1"
    by (rule consumes_decode_option, unfold decode_u64_def, rule consumes_weaken[OF w]) simp
  show ?thesis
    unfolding consumes_def
  proof (intro allI impI)
    fix bs u r
    assume "decode_utxo bs = Inr (u, r)"
    then obtain h bs1 t bs2 bi bs3 ti bs4 am
      where 1: "decode_word 4 bs = Inr (h :: u32, bs1)"
        and 2: "decode_option decode_string bs1 = Inr (t, bs2)"
        and 3: "decode_word 2 bs2 = Inr (bi :: u16, bs3)"
        and 4: "decode_word 2 bs3 = Inr (ti :: u16, bs4)"
        and 5: "decode_option decode_u64 bs4 = Inr (am, r)"
      by (auto simp add: decode_utxo_def decode_u32_def decode_u16_def bind_res_eq_Inr
          split: prod.splits)
    from consumesD[OF w 1] consumesD[OF s 2] consumesD[OF w 3] consumesD[OF w 4] consumesD[OF a 5]
    show "length r + 10 \<le> length bs"
      by linarith
  qed
qed

lemma consumes_decode_n: "consumes dec k \<Longrightarrow> consumes (decode_n n dec) (n * k)"
proof (induction n)
  case 0
  then show ?case by (simp add: consumes_def)
next
  case (Suc n)
  then show ?case
    by (fastforce simp add: consumes_def bind_res_eq_Inr split: prod.splits)
qed

lemma length_decode_n: "decode_n n dec bs = Inr (xs, r) \<Longrightarrow> length xs = n"
  by (induction n arbitrary: bs xs r) (auto simp add: bind_res_eq_Inr split: prod.splits)

lemma length_encode_minimized:
  "minimized_utxo u \<Longrightarrow> length (encode_utxo u) = 8"
  by (simp add: minimized_utxo_def encode_utxo_def encode_skip_none_def encode_u16_def encode_u32_def)
lemma take_bit_of_le_bytes_append:
  "take_bit (8 * length ys) (of_le_bytes (ys @ zs) :: 'a::len word)
     = take_bit (8 * length ys) (of_le_bytes ys)"
proof (induction ys)
  case Nil
  then show ?case by simp
next
  case (Cons y ys)
  show ?case
  proof (rule bit_word_eqI)
    fix k
    have ih: "k - 8 < 8 * length ys \<Longrightarrow>
        bit (of_le_bytes (ys @ zs) :: 'a word) (k - 8) = bit (of_le_bytes ys :: 'a word) (k - 8)"
      using arg_cong[OF Cons.IH, of "\<lambda>w. bit w (k - 8)"] by (simp add: bit_take_bit_iff)
    show "bit (take_bit (8 * length (y # ys)) (of_le_bytes ((y # ys) @ zs) :: 'a word)) k
        = bit (take_bit (8 * length (y # ys)) (of_le_bytes (y # ys) :: 'a word)) k"
    proof (cases "k < 8")
      case True
      then show ?thesis by (simp add: bit_simps)
    next
      case False
      show ?thesis
      proof (cases "k - 8 < 8 * length ys")
        case True
        with ih False show ?thesis by (simp add: bit_simps)
      next
        case False
        with \<open>\<not> k < 8\<close> have "\<not> k < 8 + 8 * length ys"
          by arith
        then show ?thesis by (simp add: bit_simps)
      qed
    qed
  qed
qed

lemma length_concat_const:
  "(\<And>x. x \<in> set xs \<Longrightarrow> length (f x) = k) \<Longrightarrow> length (concat (map f xs)) = k * length xs"
  by (induction xs) auto

lemma decode_option_Inr_Some:
  "decode_option dec (b # rest) = Inr (Some v, r) \<Longrightarrow> b = 1 \<and> dec rest = Inr (v, r)"
  by (cases "dec rest") (auto simp add: decode_option_def split: if_splits)

lemma minimized_results_undecodable:
  assumes "us \<noteq> []" and "\<forall>u \<in> set us. minimized_utxo u" and "length us < 2 ^ 64"
    and d: "decode_vec decode_utxo (serialize_results us) = Inr (ys, r)"
  shows False
proof -
  have n: "unat (word_of_nat (length us) :: u64) = length us"
    using assms(3) by (simp add: unat_of_nat)
  have "decode_n (length us) decode_utxo (concat (map encode_utxo us)) = Inr (ys, r)"
    using d n by (simp add: decode_vec_def serialize_results_def encode_vec_def
        decode_u64_encode[where rest = "concat (map encode_utxo us)", simplified])
  then have "length r + length us * 10 \<le> length (concat (map encode_utxo us))"
    by (rule consumesD[OF consumes_decode_n[OF consumes_decode_utxo]])
  moreover have "length (concat (map encode_utxo us)) = 8 * length us"
    using assms(2) by (intro length_concat_const) (simp add: length_encode_minimized)
  ultimately show False
    using assms(1) by simp
qed

lemma utxo_results_new_encode:
  assumes "\<forall>u \<in> set us. full_utxo u" and "length us < 2 ^ 64"
  shows "utxo_results_new (encode_option (encode_vec encode_utxo) (Some us)) = Inr \<lparr>results_vec = us\<rparr>"
proof -
  have "decode_vec decode_utxo (encode_vec encode_utxo us @ []) = Inr (us, [])"
    using assms by (intro decode_vec_encode decode_utxo_encode_full) simp_all
  then have "decode_option (decode_vec decode_utxo) (encode_option (encode_vec encode_utxo) (Some us) @ [])
      = Inr (Some us, [])"
    by (rule decode_option_Some)
  then show ?thesis
    by (simp add: utxo_results_new_def deserialize_def)
qed

text \<open>
  A \<open>u64\<close> read one byte late, from the last seven bytes of the encoding of \<open>w\<close>
  and one byte after them: its low 56 bits are \<open>w\<close> shifted right by 8.
\<close>

lemma decode_u64_shifted:
  assumes "decode_u64 (le_bytes 7 (drop_bit 8 (w :: u64)) @ t) = Inr (L, rest)"
    and "unat L < 2 ^ 56"
  shows "unat L = unat w div 256"
proof -
  let ?p = "le_bytes 7 (drop_bit 8 w)"
  have L_eq: "L = of_le_bytes (take 8 (?p @ t))"
    using assms(1) by (simp add: decode_u64_def decode_word_def split: if_splits)
  have "take 8 (?p @ t) = ?p @ take 1 t"
    by simp
  then have "take_bit 56 L = take_bit 56 (of_le_bytes ?p :: u64)"
    using L_eq take_bit_of_le_bytes_append[of ?p "take 1 t"] by simp
  also have "\<dots> = take_bit 56 (drop_bit 8 w)"
    by (simp add: of_le_bytes_le_bytes)
  finally have tb: "take_bit 56 L = take_bit 56 (drop_bit 8 w)" .
  have "unat (take_bit 56 L) = unat L"
    using assms(2) by (simp add: unsigned_take_bit_eq take_bit_nat_eq_self)
  moreover have "unat (take_bit 56 (drop_bit 8 w)) = unat w div 256"
  proof -
    have "unat w < 2 ^ 64" using unsigned_less[of w] by simp
    moreover have "unat (take_bit 56 (drop_bit 8 w)) = take_bit 56 (drop_bit 8 (unat w))"
      by (simp only: unsigned_take_bit_eq unat_drop_bit_eq)
    ultimately show ?thesis
      by (simp add: drop_bit_eq_div take_bit_nat_eq_self)
  qed
  ultimately show ?thesis
    using tb by simp
qed

section \<open>Properties of the binary format\<close>

text \<open>
  C14 (round trip). In \<open>full\<close> mode the bin file \<open>main\<close> writes decodes, with
  \<open>bincode::deserialize::<Vec<UTXO>>\<close>, to exactly the records written, when every
  txid is valid UTF-8 (as a Rust \<open>String\<close> is).
\<close>

theorem serialize_results_roundtrip_full:
  assumes "\<forall>u \<in> set us. full_utxo u" and "length us < 2 ^ 64"
  shows "deserialize (decode_vec decode_utxo) (serialize_results us) = Inr us"
proof -
  have "decode_vec decode_utxo (encode_vec encode_utxo us @ []) = Inr (us, [])"
    using assms by (intro decode_vec_encode decode_utxo_encode_full) simp_all
  then show ?thesis
    by (simp add: deserialize_def serialize_results_def)
qed

theorem serialize_results_roundtrip_full_witness:
  "full_utxo \<lparr>block_height = (100::u32), utxo_id = Some ''abc'', block_index = (7::u16),
        transaction_index = (2::u16), amount = Some (5000::usize)\<rparr>
   \<and> length [\<lparr>block_height = (100::u32), utxo_id = Some ''abc'', block_index = (7::u16),
        transaction_index = (2::u16), amount = Some (5000::usize)\<rparr>] < 2 ^ 64
   \<and> deserialize (decode_vec decode_utxo)
       (serialize_results [\<lparr>block_height = 100, utxo_id = Some ''abc'', block_index = 7,
          transaction_index = 2, amount = Some 5000\<rparr>])
     = Inr [\<lparr>block_height = 100, utxo_id = Some ''abc'', block_index = 7,
          transaction_index = 2, amount = Some 5000\<rparr>]"
proof -
  let ?us = "[\<lparr>block_height = (100::u32), utxo_id = Some ''abc'', block_index = (7::u16),
        transaction_index = (2::u16), amount = Some (5000::usize)\<rparr>]"
  have h1: "\<forall>u \<in> set ?us. full_utxo u"
    by (simp add: full_utxo_def string_bytes_def)
  have h2: "length ?us < 2 ^ 64"
    by simp
  show ?thesis
    using h1 h2 serialize_results_roundtrip_full[OF h1 h2] by simp
qed

text \<open>
  C15 (round trip, refuted for minimised records). When the records have neither txid
  nor amount, as in any mode other than \<open>full\<close>, the derive skips both fields on
  writing but expects them on reading: a non-empty bin file of such records never
  decodes. Each record takes 8 bytes written and at least 10 bytes read.
\<close>

theorem minimized_bin_unreadable:
  assumes "us \<noteq> []" and "\<forall>u \<in> set us. minimized_utxo u" and "length us < 2 ^ 64"
  shows "\<exists>e. deserialize (decode_vec decode_utxo) (serialize_results us) = Inl e"
  using minimized_results_undecodable[OF assms]
  by (cases "decode_vec decode_utxo (serialize_results us)") (auto simp add: deserialize_def)

theorem minimized_bin_unreadable_witness:
  "[\<lparr>block_height = (100::u32), utxo_id = None, block_index = (7::u16),
      transaction_index = (2::u16), amount = (None :: usize option)\<rparr>] \<noteq> []
   \<and> minimized_utxo \<lparr>block_height = (100::u32), utxo_id = None, block_index = (7::u16),
      transaction_index = (2::u16), amount = (None :: usize option)\<rparr>
   \<and> length [\<lparr>block_height = (100::u32), utxo_id = None, block_index = (7::u16),
      transaction_index = (2::u16), amount = (None :: usize option)\<rparr>] < 2 ^ 64
   \<and> (\<exists>e. deserialize (decode_vec decode_utxo)
        (serialize_results [\<lparr>block_height = 100, utxo_id = None, block_index = 7,
           transaction_index = 2, amount = None\<rparr>]) = Inl e)"
proof -
  let ?us = "[\<lparr>block_height = (100::u32), utxo_id = None, block_index = (7::u16),
      transaction_index = (2::u16), amount = (None :: usize option)\<rparr>]"
  have h1: "?us \<noteq> []" by simp
  have h2: "\<forall>u \<in> set ?us. minimized_utxo u" by (simp add: minimized_utxo_def)
  have h3: "length ?us < 2 ^ 64" by simp
  show ?thesis
    using h1 h2 h3 minimized_bin_unreadable[OF h1 h2 h3] by simp
qed

text \<open>
  C16 (error). \<open>UTXOResults::new\<close> reads its bytes as \<open>Option<Vec<UTXO>>\<close>, but
  \<open>main\<close> writes a bare \<open>Vec<UTXO>\<close>: the low byte of the length is taken for the
  option tag. For any list of fewer than \<open>2 ^ 56\<close> records, loading a file written
  by \<open>main\<close> either panics or yields a list other than the one written.
\<close>

theorem results_new_rejects_main_output:
  assumes "length us < 2 ^ 56"
  shows "utxo_results_new (serialize_results us) \<noteq> Inr \<lparr>results_vec = us\<rparr>"
proof
  assume new: "utxo_results_new (serialize_results us) = Inr \<lparr>results_vec = us\<rparr>"
  let ?n = "length us" and ?t = "concat (map encode_utxo us)"
  let ?w = "word_of_nat (length us) :: u64"
  let ?rest = "le_bytes 7 (drop_bit 8 ?w) @ ?t"
  have bs: "serialize_results us = ucast ?w # ?rest"
    by (simp add: serialize_results_def encode_vec_def encode_u64_def)
       (simp add: numeral_eq_Suc)
  from new obtain r where "decode_option (decode_vec decode_utxo) (serialize_results us) = Inr (Some us, r)"
    by (cases "decode_option (decode_vec decode_utxo) (serialize_results us)")
       (auto simp add: utxo_results_new_def deserialize_def split: sum.splits option.splits)
  then have tag: "(ucast ?w :: u8) = 1" and vec: "decode_vec decode_utxo ?rest = Inr (us, r)"
    unfolding bs by (auto dest: decode_option_Inr_Some)
  from vec obtain L rest' where
      L: "decode_u64 ?rest = Inr (L, rest')" and n: "decode_n (unat L) decode_utxo rest' = Inr (us, r)"
    by (auto simp add: decode_vec_def bind_res_eq_Inr)
  have len: "?n = unat L"
    using length_decode_n[OF n] by simp
  have "?n = ?n div 256"
    using decode_u64_shifted[OF L] len assms by (simp add: unat_of_nat)
  then have "?n = 0"
    by linarith
  moreover have "unat (ucast ?w :: u8) = ?n mod 256"
    using assms by (simp add: unsigned_ucast_eq unat_of_nat take_bit_eq_mod)
  ultimately show False
    using tag by simp
qed

theorem results_new_rejects_main_output_witness:
  "length [\<lparr>block_height = (100::u32), utxo_id = Some ''abc'', block_index = (7::u16),
      transaction_index = (2::u16), amount = Some (5000::usize)\<rparr>] < 2 ^ 56
   \<and> utxo_results_new (serialize_results [\<lparr>block_height = 100, utxo_id = Some ''abc'',
        block_index = 7, transaction_index = 2, amount = Some 5000\<rparr>])
     \<noteq> Inr \<lparr>results_vec = [\<lparr>block_height = 100, utxo_id = Some ''abc'', block_index = 7,
        transaction_index = 2, amount = Some 5000\<rparr>]\<rparr>"
proof -
  let ?us = "[\<lparr>block_height = (100::u32), utxo_id = Some ''abc'', block_index = (7::u16),
      transaction_index = (2::u16), amount = Some (5000::usize)\<rparr>]"
  have h: "length ?us < 2 ^ 56" by simp
  show ?thesis
    using h results_new_rejects_main_output[OF h] by simp
qed

text \<open>
  C17 (round trip). What \<open>UTXOResults::new\<close> does accept: the bincode encoding of
  \<open>Some\<close> of a vector of full records loads as that vector, and \<open>results\<close>
  returns it.
\<close>

theorem results_new_roundtrip:
  assumes "\<forall>u \<in> set us. full_utxo u" and "length us < 2 ^ 64"
  shows "map_sum id results (utxo_results_new (encode_option (encode_vec encode_utxo) (Some us)))
           = Inr us"
  using utxo_results_new_encode[OF assms] by (simp add: results_def)

theorem results_new_roundtrip_witness:
  "full_utxo \<lparr>block_height = (1::u32), utxo_id = Some ''t'', block_index = (1::u16),
        transaction_index = (0::u16), amount = Some (1::usize)\<rparr>
   \<and> length [\<lparr>block_height = (1::u32), utxo_id = Some ''t'', block_index = (1::u16),
        transaction_index = (0::u16), amount = Some (1::usize)\<rparr>] < 2 ^ 64
   \<and> map_sum id results (utxo_results_new (encode_option (encode_vec encode_utxo)
        (Some [\<lparr>block_height = 1, utxo_id = Some ''t'', block_index = 1,
                 transaction_index = 0, amount = Some 1\<rparr>])))
     = Inr [\<lparr>block_height = 1, utxo_id = Some ''t'', block_index = 1,
             transaction_index = 0, amount = Some 1\<rparr>]"
proof -
  let ?us = "[\<lparr>block_height = (1::u32), utxo_id = Some ''t'', block_index = (1::u16),
        transaction_index = (0::u16), amount = Some (1::usize)\<rparr>]"
  have h1: "\<forall>u \<in> set ?us. full_utxo u"
    by (simp add: full_utxo_def string_bytes_def)
  have h2: "length ?us < 2 ^ 64"
    by simp
  show ?thesis
    using h1 h2 results_new_roundtrip[OF h1 h2] by simp
qed


end
