(* ===== verification/Lib_Tests.thy ===== *)
theory Lib_Tests
  imports Bincode
begin

text \<open>
  The unit tests of \<open>src/src/lib.rs\<close> (module \<open>tests\<close>, lines 66 to 98), each as the
  Boolean its assertions compute: \<open>True\<close> exactly when the test passes. An index
  out of bounds, which would panic and fail the test, is the value \<open>False\<close>.
\<close>

section \<open>The tests\<close>

text \<open>Lines 70 to 81: \<open>assert_eq!(760542088613330945, utxo1.scid())\<close>.\<close>

definition scid_test_body :: bool where
  "scid_test_body =
     (let utxo1 = \<lparr>block_height = 691709, utxo_id = None, block_index = 1160,
                   transaction_index = 1, amount = None\<rparr>
      in 760542088613330945 = scid utxo1)"

text \<open>
  Lines 83 to 97: a \<open>UTXOResults\<close> built from a one-element vector returns, at index
  0 of \<open>results()\<close>, the element it was built from.
\<close>

definition returns_results_body :: bool where
  "returns_results_body =
     (let utxo1 = \<lparr>block_height = 1, utxo_id = None, block_index = 1,
                   transaction_index = 0, amount = None\<rparr>;
          results' = [utxo1];
          utxo_results = \<lparr>results_vec = results'\<rparr>
      in case results utxo_results of [] \<Rightarrow> False | r0 # _ \<Rightarrow> r0 = utxo1)"

section \<open>The tests pass\<close>

text \<open>
  The unit test \<open>scid_test\<close> passes: the record at height 691709,
  position 1160, output 1 has the short channel id 760542088613330945.
\<close>

lemma scid_test:
  "scid_test_body"
  by (simp add: scid_test_body_def scid_def scid_from_parts_def)

text \<open>
  The unit test \<open>returns_results\<close> passes: \<open>results()\<close> gives back
  the vector the structure holds, element for element.
\<close>

lemma returns_results:
  "returns_results_body"
  by (simp add: returns_results_body_def results_def)

end
