(* ===== verification/Batching.thy ===== *)
theory Batching
  imports Pipeline
begin

text \<open>
  The join-and-emit loop of \<open>main\<close> (\<open>src/src/bin/main.rs\<close> lines 79 to 128) as a
  transition system, one transition per statement group of the two nested loops, with
  the position rows left open: every reachable state of the loop, for any input. The
  batching invariant of \<open>Pipeline\<close> is lifted to all these states by rule induction,
  which gives the memory bound of \<open>json\<close> mode and the agreement of the code's counter
  test with the batch-size test of the spec.
\<close>

section \<open>The loop as a step relation\<close>

text \<open>
  Where the loop is: between two position rows (\<open>AtRow\<close>), or inside the inner
  \<open>for utxo in utxos.iter()\<close> of a row with the records still to emit (\<open>InRow\<close>).
\<close>

datatype loop_pc = AtRow | InRow iterate_dump "utxo_dump list"

text \<open>
  Lines 80 to 88 and 126: a decoded row is counted in \<open>i\<close> and looked up; a hit enters
  the inner loop with the records of its transaction, a miss goes to the next row.
  Lines 89 to 123: one record of the inner loop is \<open>emit\<close>. Line 124: the inner
  loop ends.
\<close>

inductive loop_step :: "config \<Rightarrow> utxo_index \<Rightarrow> loop_pc \<times> pipeline_state \<Rightarrow> loop_pc \<times> pipeline_state \<Rightarrow> bool"
  for cfg idx
where
  row_hit: "idx (iterate_txid it) = Some us \<Longrightarrow>
     loop_step cfg idx (AtRow, s) (InRow it us, count_row s)"
| row_miss: "idx (iterate_txid (it :: iterate_dump)) = None \<Longrightarrow>
     loop_step cfg idx (AtRow, s) (AtRow, count_row s)"
| emit_one: "loop_step cfg idx (InRow it (u # us), s) (InRow it us, emit cfg it s u)"
| row_done: "loop_step cfg idx (InRow it [], s) (AtRow, s)"

text \<open>The states the loop can reach from lines 73 to 77, for some position dump.\<close>

inductive loop_reach :: "config \<Rightarrow> utxo_index \<Rightarrow> loop_pc \<times> pipeline_state \<Rightarrow> bool"
  for cfg idx
where
  start: "loop_reach cfg idx (AtRow, init_state)"
| step: "loop_reach cfg idx c \<Longrightarrow> loop_step cfg idx c c' \<Longrightarrow> loop_reach cfg idx c'"

inductive_cases loop_step_AtRowE: "loop_step cfg idx (AtRow, s) c'"
inductive_cases loop_step_InRowE: "loop_step cfg idx (InRow it us, s) c'"

section \<open>Lemmas\<close>

text \<open>One step adds at most one record, and only by \<open>emit\<close>.\<close>

lemma loop_step_all_records:
  "loop_step cfg idx (pc, s) (pc', s') \<Longrightarrow>
     all_records s' = all_records s \<or>
     (\<exists>it u. all_records s' = all_records s @ [make_utxo (minimized_type cfg) it u] \<and> s' = emit cfg it s u)"
  by (cases rule: loop_step.cases) (fastforce simp: all_records_emit)+

lemma loop_step_json_inv:
  assumes "loop_step cfg idx (pc, s) (pc', s')" and "output_type cfg = ''json''"
    and "json_inv cfg (all_records s) s" and "length (all_records s') < 2 ^ 31"
  shows "json_inv cfg (all_records s') s'"
  using assms(1)
proof (cases rule: loop_step.cases)
  case (emit_one it u us)
  have "length (all_records s) + 1 < 2 ^ 31"
    using assms(4) emit_one by (simp add: all_records_emit)
  then show ?thesis
    using emit_json_inv[OF assms(2,3)] emit_one by (simp add: all_records_emit)
qed (use assms(3) in simp_all)

lemma loop_reach_json_inv:
  assumes "loop_reach cfg idx c" and "output_type cfg = ''json''"
  shows "length (all_records (snd c)) < 2 ^ 31 \<longrightarrow> json_inv cfg (all_records (snd c)) (snd c)"
  using assms(1)
proof (induction rule: loop_reach.induct)
  case start
  show ?case by (simp add: json_inv_init)
next
  case (step c c')
  obtain pc s pc' s' where c: "c = (pc, s)" "c' = (pc', s')" by (cases c, cases c')
  have "length (all_records s) \<le> length (all_records s')"
    using loop_step_all_records[of cfg idx pc s pc' s'] step.hyps(2) c by auto
  then show ?case
    using step c loop_step_json_inv[of cfg idx pc s pc' s', OF _ assms(2)] by auto
qed

lemma loop_reach_json_invD:
  "loop_reach cfg idx (pc, s) \<Longrightarrow> output_type cfg = ''json'' \<Longrightarrow> length (all_records s) < 2 ^ 31 \<Longrightarrow>
     json_inv cfg (all_records s) s"
  using loop_reach_json_inv[of cfg idx "(pc, s)"] by simp

lemma json_inv_scrape_length:
  "json_inv cfg rs s \<Longrightarrow> length (scrape_results s) = length rs mod 10000"
  by (simp add: json_inv_def minus_div_mult_eq_mod)

text \<open>The inner loop over the records of one row, as steps of the relation.\<close>

lemma inner_loop_steps:
  "(loop_step cfg idx)\<^sup>*\<^sup>* (InRow it us, s) (InRow it [], foldl (emit cfg it) s us)"
proof (induction us arbitrary: s)
  case Nil
  show ?case by simp
next
  case (Cons u us)
  have "loop_step cfg idx (InRow it (u # us), s) (InRow it us, emit cfg it s u)"
    by (rule loop_step.emit_one)
  with Cons.IH[of "emit cfg it s u"] show ?case
    by (simp add: converse_rtranclp_into_rtranclp)
qed

lemma loop_reach_rtranclp:
  "(loop_step cfg idx)\<^sup>*\<^sup>* c c' \<Longrightarrow> loop_reach cfg idx c \<Longrightarrow> loop_reach cfg idx c'"
  by (induction rule: rtranclp_induct) (auto intro: loop_reach.step)

lemma row_steps:
  "(loop_step cfg idx)\<^sup>*\<^sup>* (AtRow, s) (AtRow, process_row cfg idx s it)"
proof (cases "idx (iterate_txid it)")
  case None
  then have "loop_step cfg idx (AtRow, s) (AtRow, process_row cfg idx s it)"
    using loop_step.row_miss[of idx it cfg s] by (simp add: process_row_def)
  then show ?thesis by simp
next
  case (Some us)
  have "(loop_step cfg idx)\<^sup>*\<^sup>* (InRow it us, count_row s)
          (InRow it [], foldl (emit cfg it) (count_row s) us)"
    by (rule inner_loop_steps)
  moreover have "loop_step cfg idx (AtRow, s) (InRow it us, count_row s)"
    using Some by (rule loop_step.row_hit)
  moreover have "loop_step cfg idx (InRow it [], foldl (emit cfg it) (count_row s) us)
                   (AtRow, process_row cfg idx s it)"
    using Some loop_step.row_done[of cfg idx it] by (simp add: process_row_def)
  ultimately show ?thesis
    by (meson converse_rtranclp_into_rtranclp rtranclp.rtrancl_into_rtrancl)
qed

lemma foldl_process_row_reach:
  "loop_reach cfg idx (AtRow, s) \<Longrightarrow> loop_reach cfg idx (AtRow, foldl (process_row cfg idx) s its)"
proof (induction its arbitrary: s)
  case (Cons it its)
  have "loop_reach cfg idx (AtRow, process_row cfg idx s it)"
    using row_steps Cons.prems by (rule loop_reach_rtranclp)
  then show ?case using Cons.IH by simp
qed simp

lemma found_json_inv:
  "json_inv cfg rs s \<Longrightarrow> found s = word_of_nat (length rs)"
  by (simp add: json_inv_def)

section \<open>Properties of the loop\<close>

text \<open>
  C25 (safety, memory bound). In \<open>json\<close> mode, in every state the loop can reach on
  any position dump, as long as fewer than \<open>2 ^ 31\<close> records have been matched, the
  batch \<open>scrape_results\<close> held in memory has fewer than 10,000 records.
\<close>

theorem loop_reach_batch_bound:
  assumes "loop_reach cfg idx (pc, s)" and "output_type cfg = ''json''"
    and "length (all_records s) < 2 ^ 31"
  shows "length (scrape_results s) < 10000"
  using json_inv_scrape_length[OF loop_reach_json_invD[OF assms]] by simp

theorem loop_reach_batch_bound_witness:
  "loop_reach \<lparr>output_type = ''json'', minimized_type = ''full'', file_location = ''o''\<rparr>
      [''t'' \<mapsto> [\<lparr>txid = ''t'', vout = 0, height = 5, dump_amount = 9\<rparr>]]
      (AtRow, process_row \<lparr>output_type = ''json'', minimized_type = ''full'', file_location = ''o''\<rparr>
                [''t'' \<mapsto> [\<lparr>txid = ''t'', vout = 0, height = 5, dump_amount = 9\<rparr>]] init_state
                \<lparr>iterate_txid = ''t'', tx_height = 2\<rparr>)
   \<and> length (scrape_results (process_row \<lparr>output_type = ''json'', minimized_type = ''full'', file_location = ''o''\<rparr>
                [''t'' \<mapsto> [\<lparr>txid = ''t'', vout = 0, height = 5, dump_amount = 9\<rparr>]] init_state
                \<lparr>iterate_txid = ''t'', tx_height = 2\<rparr>)) < 10000"
proof -
  let ?cfg = "\<lparr>output_type = ''json'', minimized_type = ''full'', file_location = ''o''\<rparr>"
  let ?idx = "[''t'' \<mapsto> [\<lparr>txid = ''t'', vout = 0, height = 5, dump_amount = 9\<rparr>]]"
  let ?s = "process_row ?cfg ?idx init_state \<lparr>iterate_txid = ''t'', tx_height = 2\<rparr>"
  have r: "loop_reach ?cfg ?idx (AtRow, ?s)"
    using foldl_process_row_reach[OF loop_reach.start, of ?cfg ?idx "[\<lparr>iterate_txid = ''t'', tx_height = 2\<rparr>]"]
    by simp
  have "length (all_records ?s) < 2 ^ 31"
    by (simp add: all_records_process_row join_def)
  then have "length (scrape_results ?s) < 10000"
    using loop_reach_batch_bound[OF r] by simp
  with r show ?thesis by simp
qed

text \<open>
  C26 (equivalence). In the same states, the code's flush test on the counter,
  \<open>found % 10000 == 0\<close> after \<open>found += 1\<close>, holds exactly when the push has just
  brought the batch to its size bound of 10,000 records, the test the spec states.
\<close>

theorem flush_due_iff_batch_full:
  assumes "loop_reach cfg idx (pc, s)" and "output_type cfg = ''json''"
    and "length (all_records s) + 1 < 2 ^ 31"
  shows "flush_due cfg (found s + 1) \<longleftrightarrow> length (scrape_results s) + 1 = 10000"
proof -
  let ?n = "length (all_records s)"
  have inv: "json_inv cfg (all_records s) s"
    using assms by (intro loop_reach_json_invD) simp_all
  have eq: "found s + 1 = word_of_nat (Suc ?n)"
    using found_json_inv[OF inv] by simp
  have "flush_due cfg (word_of_nat (Suc ?n)) \<longleftrightarrow> 10000 dvd Suc ?n"
    using flush_due_of_nat[of "Suc ?n" cfg] assms(2,3) by simp
  then have "flush_due cfg (found s + 1) \<longleftrightarrow> 10000 dvd Suc ?n"
    by (simp only: eq)
  also have "\<dots> \<longleftrightarrow> ?n mod 10000 + 1 = 10000"
    by (simp add: dvd_eq_mod_eq_0 mod_Suc)
  finally show ?thesis
    using json_inv_scrape_length[OF inv] by simp
qed

theorem flush_due_iff_batch_full_witness:
  "loop_reach \<lparr>output_type = ''json'', minimized_type = ''min'', file_location = ''o''\<rparr>
      [''t'' \<mapsto> [\<lparr>txid = ''t'', vout = 0, height = 5, dump_amount = 9\<rparr>]]
      (AtRow, process_row \<lparr>output_type = ''json'', minimized_type = ''min'', file_location = ''o''\<rparr>
                [''t'' \<mapsto> [\<lparr>txid = ''t'', vout = 0, height = 5, dump_amount = 9\<rparr>]] init_state
                \<lparr>iterate_txid = ''t'', tx_height = 2\<rparr>)
   \<and> \<not> flush_due \<lparr>output_type = ''json'', minimized_type = ''min'', file_location = ''o''\<rparr>
        (found (process_row \<lparr>output_type = ''json'', minimized_type = ''min'', file_location = ''o''\<rparr>
                [''t'' \<mapsto> [\<lparr>txid = ''t'', vout = 0, height = 5, dump_amount = 9\<rparr>]] init_state
                \<lparr>iterate_txid = ''t'', tx_height = 2\<rparr>) + 1)"
proof -
  let ?cfg = "\<lparr>output_type = ''json'', minimized_type = ''min'', file_location = ''o''\<rparr>"
  let ?idx = "[''t'' \<mapsto> [\<lparr>txid = ''t'', vout = 0, height = 5, dump_amount = 9\<rparr>]]"
  let ?s = "process_row ?cfg ?idx init_state \<lparr>iterate_txid = ''t'', tx_height = 2\<rparr>"
  have r: "loop_reach ?cfg ?idx (AtRow, ?s)"
    using foldl_process_row_reach[OF loop_reach.start, of ?cfg ?idx "[\<lparr>iterate_txid = ''t'', tx_height = 2\<rparr>]"]
    by simp
  have len: "length (all_records ?s) + 1 < 2 ^ 31"
    by (simp add: all_records_process_row join_def)
  have "length (scrape_results ?s) = 1"
    by (simp add: process_row_def count_row_def emit_def Let_def flush_due_def smod_eq_0_iff_dvd)
  then have "\<not> flush_due ?cfg (found ?s + 1)"
    using flush_due_iff_batch_full[OF r _ len] by simp
  with r show ?thesis by simp
qed

text \<open>
  C30 (liveness). In \<open>json\<close> mode no batch stays in memory: from any reachable state,
  once the records still missing to fill the batch have been emitted, the batch has
  been written out as one more part and \<open>scrape_results\<close> is empty again.
\<close>

theorem batch_flushed_eventually:
  assumes "loop_reach cfg idx (pc, s)" and "output_type cfg = ''json''"
    and "length (all_records s) + length us < 2 ^ 31"
    and "length us = 10000 - length (scrape_results s)"
  shows "scrape_results (foldl (emit cfg it) s us) = []
         \<and> length (written (foldl (emit cfg it) s us)) = Suc (length (written s))"
proof -
  let ?rs = "all_records s" and ?n = "length (all_records s)"
  let ?rs' = "?rs @ map (make_utxo (minimized_type cfg) it) us"
  have inv: "json_inv cfg ?rs s"
    using assms(1,2,3) by (intro loop_reach_json_invD) simp_all
  have inv': "json_inv cfg ?rs' (foldl (emit cfg it) s us)"
    using foldl_emit_json_inv[OF assms(2) inv] assms(3) by simp
  have lu: "length us = 10000 - ?n mod 10000"
    using assms(4) json_inv_scrape_length[OF inv] by simp
  have n': "length ?rs' = ?n div 10000 * 10000 + 10000"
  proof -
    have e: "?n div 10000 * 10000 + ?n mod 10000 = ?n" by (rule div_mult_mod_eq)
    have m: "?n mod 10000 < 10000" by simp
    have "length ?rs' = ?n + length us" by simp
    with lu e m show ?thesis by linarith
  qed
  have "scrape_results (foldl (emit cfg it) s us) = []"
    using inv' n' by (simp add: json_inv_def)
  moreover have "length (written (foldl (emit cfg it) s us)) = Suc (?n div 10000)"
    using inv' n' by (simp add: json_inv_def)
  moreover have "length (written s) = ?n div 10000"
    using inv by (simp add: json_inv_def)
  ultimately show ?thesis by simp
qed
theorem batch_flushed_eventually_witness:
  "scrape_results (foldl (emit \<lparr>output_type = ''json'', minimized_type = ''full'', file_location = ''o''\<rparr>
       \<lparr>iterate_txid = ''t'', tx_height = 2\<rparr>)
       (process_row \<lparr>output_type = ''json'', minimized_type = ''full'', file_location = ''o''\<rparr>
          [''t'' \<mapsto> replicate 9999 \<lparr>txid = ''t'', vout = 0, height = 5, dump_amount = 9\<rparr>] init_state
          \<lparr>iterate_txid = ''t'', tx_height = 2\<rparr>)
       [\<lparr>txid = ''t'', vout = 0, height = 5, dump_amount = 9\<rparr>]) = []"
proof -
  let ?cfg = "\<lparr>output_type = ''json'', minimized_type = ''full'', file_location = ''o''\<rparr>"
  let ?u = "\<lparr>txid = ''t'', vout = 0, height = 5, dump_amount = 9\<rparr>"
  let ?idx = "[''t'' \<mapsto> replicate 9999 ?u]"
  let ?it = "\<lparr>iterate_txid = ''t'', tx_height = 2\<rparr>"
  let ?s = "process_row ?cfg ?idx init_state ?it"
  have r: "loop_reach ?cfg ?idx (AtRow, ?s)"
    using foldl_process_row_reach[OF loop_reach.start, of ?cfg ?idx "[?it]"] by simp
  have n: "length (all_records ?s) = 9999"
    by (simp add: all_records_process_row)
  have "length (scrape_results ?s) = 9999"
    using json_inv_scrape_length[OF loop_reach_json_invD[OF r]] n by simp
  then have "length [?u] = 10000 - length (scrape_results ?s)"
    by simp
  moreover have "length (all_records ?s) + length [?u] < 2 ^ 31"
    using n by simp
  ultimately show ?thesis
    using batch_flushed_eventually[OF r, of "[?u]" ?it] by simp
qed

end
