(* ===== verification/Spec2Isabelle.thy ===== *)
theory Spec2Isabelle
  imports Program Lib_Tests Batching
begin

text \<open>
  \<^bold>\<open>A model of p2wsh-utxo.\<close>

  The crate joins two dumps of Bitcoin data. \<open>src/src/bin/main.rs\<close> reads a UTXO
  dump (CSV with a header naming txid, vout, height, amount among other columns) into a
  hash map from txid to the records of that transaction, then streams a position dump
  (CSV without a header: txid, position in the block). For every position row whose
  txid is in the map it emits one enriched record \<open>UTXO\<close> per record of the
  transaction, keeping txid and amount only when the mode is \<open>full\<close>. In \<open>json\<close>
  mode the records go to numbered parts of 10,000; in \<open>bin\<close> mode all of them are
  bincode-encoded into one file. \<open>src/src/lib.rs\<close> defines \<open>UTXO\<close>, its short
  channel id \<open>scid\<close>, and \<open>UTXOResults\<close>, which decodes an embedded bincode file.

  \<^bold>\<open>Theories.\<close>
  \<^item> \<open>Prelude\<close>: the Rust integer types as words (\<open>u8\<close> to \<open>u64\<close>, \<open>usize\<close> of
    64 bits, \<open>i32\<close> read with \<open>sint\<close>), decimal printing (\<open>Display\<close>), UTF-8
    validation (\<open>str::from_utf8\<close>), little-endian bytes, \<open>?\<close> as \<open>bind_res\<close>,
    and the shared word, list and byte lemmas.
  \<^item> \<open>Scid\<close> (\<open>lib.rs\<close> 3 to 38): the record \<open>utxo\<close>, \<open>MAX_SCID_VOUT_INDEX\<close>,
    \<open>scid_from_parts\<close> and \<open>scid\<close> on 64-bit words; the layout \<open>scid_parts\<close>
    read back (C1), the order of ids (C2), the loss of height bits above 24 (C3), the
    output index bound as exactly what the packing keeps (C4), the equality of the
    bitwise and arithmetic forms (C27).
  \<^item> \<open>Dump\<close> (\<open>main.rs\<close> 9 to 21, 48 to 80): \<open>UtxoDump\<close>, \<open>IterateDump\<close> and
    the decoding of a CSV row as the \<open>csv\<close> reader and the serde derive do it: length
    and UTF-8 checks, fields by header name (\<open>visit_map\<close>, with duplicate and missing
    field errors) or by position, field after field (\<open>visit_seq\<close>), integers as
    \<open>csv\<close>'s \<open>deserialize_int\<close> reads them: hexadecimal after a \<open>0x\<close> prefix,
    otherwise \<open>str::parse\<close>, both by \<open>from_str_radix\<close>. C20 is decoding by name,
    C29 the error for a missing column.
  \<^item> \<open>Index\<close> (\<open>main.rs\<close> 46 to 67): \<open>index_insert\<close> and \<open>build_index\<close>,
    refined to the grouping \<open>group_by_txid\<close> (C5), lookups never empty (C6), the
    first row error (C7).
  \<^item> \<open>Pipeline\<close> (\<open>main.rs\<close> 69 to 147): the state \<open>pipeline_state\<close>
    (\<open>scrape_results\<close>, the \<open>i32\<close> counters \<open>i\<close>, \<open>found\<close>, \<open>part\<close>, the files
    written, the lines printed), \<open>count_row\<close>, \<open>emit\<close>, \<open>process_row\<close>,
    \<open>run_rows\<close> and \<open>finish\<close>, with the batching invariant \<open>json_inv\<close>; the outputs
    of each mode (C8 to C13).
  \<^item> \<open>Batching\<close>: the same loop as an inductive step relation \<open>loop_step\<close> over any
    position dump, its reachable states \<open>loop_reach\<close> (every state of the fold over
    \<open>process_row\<close> is one), the memory bound (C25), the flush test against the batch
    size (C26) and the flush of every batch once it fills (C30).
  \<^item> \<open>Program\<close> (\<open>main.rs\<close> 37 to 150): \<open>main_run\<close>, from the arguments and a map
    from paths to files to the outcome (exit result, files, stdout): end-to-end
    refinement to the join of the dumps (C21), the error paths and their order (C22,
    C23), the \<open>i32\<close> wrap of \<open>found\<close> (C24), the final report (C28); the spec's
    scenario is evaluated as a lemma.
  \<^item> \<open>Bincode\<close> (\<open>lib.rs\<close> 12 to 63, \<open>main.rs\<close> 135 to 139): bincode 1 with
    its default options for \<open>UTXO\<close>, \<open>Vec\<close> and \<open>Option\<close>, honouring
    \<open>skip_serializing_if\<close>; \<open>UTXOResults::new\<close> and \<open>results\<close>. Round trip for
    full records (C14, C17), failure for minimized ones (C15), \<open>new\<close> against
    main's format (C16).
  \<^item> \<open>Lib_Tests\<close> (\<open>lib.rs\<close> 66 to 98): the two unit tests as Booleans, both
    proved as lemmas.
  \<^item> This theory: the bin output of a run decodes to the emitted records in
    \<open>full\<close> mode (C18) and does not decode otherwise (C19).

  \<^bold>\<open>Bounds.\<close> The counters are \<open>i32\<close>: the claims on the pipeline assume fewer
  than \<open>2 ^ 31\<close> matches, below which no counter wraps; C24 states what happens past
  it. Bincode lengths are \<open>u64\<close>, so the encoding claims assume fewer than
  \<open>2 ^ 64\<close> records or bytes; C16 is stated for fewer than \<open>2 ^ 56\<close> records,
  which any real file satisfies. Heights must be below \<open>2 ^ 24\<close> for the id to be read
  back (C1, C2). No loop needs fuel: every loop runs over a finite input list.

  \<^bold>\<open>Not modelled.\<close> The CSV lexer of the \<open>csv\<close> crate (a file is its list of
  records of byte fields), the file system beyond a map from input paths to contents,
  failures to create or write an output file (the code unwraps them, so they panic),
  JSON and pretty-printing (a JSON part is its list of records), the contents of the
  embedded \<open>p2wsh-utxo.bin\<close> (not in the repository), and messages written to
  standard error when \<open>main\<close> returns an error.
\<close>

section \<open>Definitions across components\<close>

text \<open>
  The records of the index carry txids that are Rust \<open>String\<close>s: valid UTF-8 and
  shorter than \<open>2 ^ 64\<close> bytes.
\<close>

definition index_txids_valid :: "utxo_index \<Rightarrow> bool" where
  "index_txids_valid idx \<longleftrightarrow>
     (\<forall>k vs u. idx k = Some vs \<longrightarrow> u \<in> set vs \<longrightarrow>
        utf8_valid (string_bytes (txid u)) \<and> length (txid u) < 2 ^ 64)"

section \<open>Lemmas across components\<close>

lemma join_full_records:
  assumes "index_txids_valid idx" and "r \<in> set (join ''full'' idx its)"
  shows "full_utxo r"
proof -
  obtain it vs u where "idx (iterate_txid it) = Some vs" "u \<in> set vs" "r = make_utxo ''full'' it u"
    using join_records[OF assms(2)] by blast
  with assms(1) show ?thesis
    by (auto simp add: index_txids_valid_def full_utxo_def make_utxo_def)
qed

lemma join_minimized_records:
  assumes "minimized \<noteq> ''full''" and "r \<in> set (join minimized idx its)"
  shows "minimized_utxo r"
  using join_records[OF assms(2)] assms(1) by (auto simp add: minimized_utxo_def make_utxo_def)

section \<open>Properties across components\<close>

text \<open>
  C18 (round trip). Running the pipeline in \<open>bin\<close> mode with minimisation \<open>full\<close>
  writes one file whose bytes decode, as \<open>Vec<UTXO>\<close>, to exactly the records the
  pipeline emitted.
\<close>

theorem bin_output_roundtrip_full:
  assumes "output_type cfg = ''bin''" and "minimized_type cfg = ''full''"
    and "index_txids_valid idx" and "length (join ''full'' idx its) < 2 ^ 64"
    and "emit_all cfg idx (map Inr its) = Inr [BinFile p rs]"
  shows "deserialize (decode_vec decode_utxo) (serialize_results rs) = Inr rs"
proof -
  have rs: "rs = join ''full'' idx its"
    using assms(1,2,5) by (simp add: emit_all_bin_file)
  have "decode_vec decode_utxo (encode_vec encode_utxo rs @ []) = Inr (rs, [])"
  proof (rule decode_vec_encode)
    show "decode_utxo (encode_utxo x @ r) = Inr (x, r)" if "x \<in> set rs" for x r
      using that assms(3) rs by (intro decode_utxo_encode_full join_full_records) simp_all
    show "length rs < 2 ^ 64"
      using assms(4) rs by simp
  qed
  then show ?thesis
    by (simp add: deserialize_def serialize_results_def)
qed

theorem bin_output_roundtrip_full_witness:
  "output_type \<lparr>output_type = ''bin'', minimized_type = ''full'', file_location = ''d''\<rparr> = ''bin''
   \<and> minimized_type \<lparr>output_type = ''bin'', minimized_type = ''full'', file_location = ''d''\<rparr> = ''full''
   \<and> utf8_valid (string_bytes ''abc'')
   \<and> length (join ''full'' [''abc'' \<mapsto> [\<lparr>txid = ''abc'', vout = 2, height = 100, dump_amount = 5000\<rparr>]]
        [\<lparr>iterate_txid = ''abc'', tx_height = 7\<rparr>]) < 2 ^ 64
   \<and> emit_all \<lparr>output_type = ''bin'', minimized_type = ''full'', file_location = ''d''\<rparr>
        [''abc'' \<mapsto> [\<lparr>txid = ''abc'', vout = 2, height = 100, dump_amount = 5000\<rparr>]]
        (map Inr [\<lparr>iterate_txid = ''abc'', tx_height = 7\<rparr>])
      = Inr [BinFile ''d/p2wsh-utxo.bin'' [\<lparr>block_height = 100, utxo_id = Some ''abc'',
               block_index = 7, transaction_index = 2, amount = Some 5000\<rparr>]]
   \<and> deserialize (decode_vec decode_utxo) (serialize_results [\<lparr>block_height = 100,
        utxo_id = Some ''abc'', block_index = 7, transaction_index = 2, amount = Some 5000\<rparr>])
      = Inr [\<lparr>block_height = 100, utxo_id = Some ''abc'', block_index = 7,
               transaction_index = 2, amount = Some 5000\<rparr>]"
proof -
  let ?cfg = "\<lparr>output_type = ''bin'', minimized_type = ''full'', file_location = ''d''\<rparr>"
  let ?idx = "[''abc'' \<mapsto> [\<lparr>txid = ''abc'', vout = 2, height = 100, dump_amount = 5000\<rparr>]]"
  let ?its = "[\<lparr>iterate_txid = ''abc'', tx_height = 7\<rparr>]"
  let ?rs = "[\<lparr>block_height = 100, utxo_id = Some ''abc'', block_index = 7,
               transaction_index = 2, amount = Some 5000\<rparr>]"
  have j: "join ''full'' ?idx ?its = ?rs"
    by (simp add: join_def make_utxo_def)
  have h1: "output_type ?cfg = ''bin''" by simp
  have h2: "minimized_type ?cfg = ''full''" by simp
  have h3: "index_txids_valid ?idx"
    by (simp add: index_txids_valid_def string_bytes_def)
  have h4: "length (join ''full'' ?idx ?its) < 2 ^ 64"
    by (simp add: j)
  have h5: "emit_all ?cfg ?idx (map Inr ?its) = Inr [BinFile ''d/p2wsh-utxo.bin'' ?rs]"
    using emit_all_bin_file[OF h1, of ?idx ?its] j by simp
  have "utf8_valid (string_bytes ''abc'')"
    by (simp add: string_bytes_def)
  then show ?thesis
    using h1 h2 h4 h5 bin_output_roundtrip_full[OF h1 h2 h3 h4 h5] by simp
qed

text \<open>
  C19 (round trip, refuted). With any other minimisation argument, a \<open>bin\<close> run that
  matched at least one record writes a file that cannot be decoded as the
  \<open>Vec<UTXO>\<close> it was written from, against the spec's binary round-trip property.
\<close>

theorem bin_output_minimized_unreadable:
  assumes "output_type cfg = ''bin''" and "minimized_type cfg \<noteq> ''full''"
    and "join (minimized_type cfg) idx its \<noteq> []"
    and "length (join (minimized_type cfg) idx its) < 2 ^ 64"
    and "emit_all cfg idx (map Inr its) = Inr [BinFile p rs]"
  shows "\<exists>e. deserialize (decode_vec decode_utxo) (serialize_results rs) = Inl e"
proof -
  have rs: "rs = join (minimized_type cfg) idx its"
    using assms(1,5) by (simp add: emit_all_bin_file)
  have ne: "rs \<noteq> []"
    using assms(3) rs by simp
  have mini: "\<forall>u \<in> set rs. minimized_utxo u"
    using assms(2) rs by (auto intro: join_minimized_records)
  have len: "length rs < 2 ^ 64"
    using assms(4) rs by simp
  show ?thesis
    using minimized_results_undecodable[OF ne mini len]
    by (cases "decode_vec decode_utxo (serialize_results rs)") (auto simp add: deserialize_def)
qed

theorem bin_output_minimized_unreadable_witness:
  "output_type \<lparr>output_type = ''bin'', minimized_type = ''min'', file_location = ''d''\<rparr> = ''bin''
   \<and> minimized_type \<lparr>output_type = ''bin'', minimized_type = ''min'', file_location = ''d''\<rparr> \<noteq> ''full''
   \<and> join ''min'' [''abc'' \<mapsto> [\<lparr>txid = ''abc'', vout = 2, height = 100, dump_amount = 5000\<rparr>]]
        [\<lparr>iterate_txid = ''abc'', tx_height = 7\<rparr>] \<noteq> []
   \<and> length (join ''min'' [''abc'' \<mapsto> [\<lparr>txid = ''abc'', vout = 2, height = 100, dump_amount = 5000\<rparr>]]
        [\<lparr>iterate_txid = ''abc'', tx_height = 7\<rparr>]) < 2 ^ 64
   \<and> (\<exists>e. deserialize (decode_vec decode_utxo) (serialize_results [\<lparr>block_height = 100,
        utxo_id = None, block_index = 7, transaction_index = 2, amount = None\<rparr>]) = Inl e)"
proof -
  let ?cfg = "\<lparr>output_type = ''bin'', minimized_type = ''min'', file_location = ''d''\<rparr>"
  let ?idx = "[''abc'' \<mapsto> [\<lparr>txid = ''abc'', vout = 2, height = 100, dump_amount = 5000\<rparr>]]"
  let ?its = "[\<lparr>iterate_txid = ''abc'', tx_height = 7\<rparr>]"
  let ?rs = "[\<lparr>block_height = (100::u32), utxo_id = (None :: string option), block_index = (7::u16),
               transaction_index = (2::u16), amount = (None :: usize option)\<rparr>]"
  have j: "join ''min'' ?idx ?its = ?rs"
    by (simp add: join_def make_utxo_def)
  have h1: "output_type ?cfg = ''bin''" by simp
  have h2: "minimized_type ?cfg \<noteq> ''full''" by simp
  have h3: "join (minimized_type ?cfg) ?idx ?its \<noteq> []" by (simp add: j)
  have h4: "length (join (minimized_type ?cfg) ?idx ?its) < 2 ^ 64" by (simp add: j)
  have h5: "emit_all ?cfg ?idx (map Inr ?its) = Inr [BinFile ''d/p2wsh-utxo.bin'' ?rs]"
    using emit_all_bin_file[OF h1, of ?idx ?its] j by simp
  show ?thesis
    using h1 h3 h4 j bin_output_minimized_unreadable[OF h1 h2 h3 h4 h5] by simp
qed

end
